theory Spec2Isabelle
  imports Main "HOL-Library.Word"
begin

section \<open>JavaScript values and the object store\<close>

text \<open>
  The parser of \<^verbatim>\<open>parse-stream-data-message.js\<close> works on dynamically typed values and
  mutates objects in place (\<^verbatim>\<open>data[key] = ...\<close>, \<^verbatim>\<open>data.type = 'metadata'\<close>), so values
  are either primitives or references into an explicit store. A number stands for a
  JavaScript double: the program only tests numbers for truthiness and against the
  literal \<^verbatim>\<open>1\<close>, so an integer is enough. Functions as values are not modelled.
\<close>

type_synonym addr = nat

type_synonym byte = "8 word"

datatype jsval =
    JUndefined
  | JNull
  | JBool bool
  | JNum int
  | JStr string
  | JRef addr

text \<open>
  A property key is a name or an array index (the canonical numeric strings
  \<^verbatim>\<open>"0"\<close>, \<^verbatim>\<open>"1"\<close>, ... of JavaScript).
\<close>

datatype pkey = Name string | Index nat

text \<open>
  Objects of the store: a plain object with its own enumerable properties in
  enumeration order, an array, a \<^verbatim>\<open>Uint8Array\<close> and an \<^verbatim>\<open>ArrayBuffer\<close>.
  Properties added to arrays and buffers by name and inherited members
  (\<^verbatim>\<open>length\<close>, methods) are not modelled: the program reads only the names
  \<^verbatim>\<open>type\<close>, \<^verbatim>\<open>data\<close>, \<^verbatim>\<open>streams\<close>, \<^verbatim>\<open>version\<close>, \<^verbatim>\<open>message\<close>,
  \<^verbatim>\<open>update_type\<close>, \<^verbatim>\<open>convertPrimitive\<close> and the keys it enumerates.
\<close>

datatype jsobj =
    Obj "(pkey \<times> jsval) list"
  | Arr "jsval list"
  | Uint8Array "byte list"
  | ArrayBuffer "byte list"

text \<open>The store: the object at address \<open>a\<close> is \<open>h ! a\<close>; a fresh object is appended.\<close>

type_synonym heap = "jsobj list"

datatype error = TypeError | SyntaxError | Thrown string

definition lookup :: "heap \<Rightarrow> addr \<Rightarrow> jsobj option" where
  "lookup h a = (if a < length h then Some (h ! a) else None)"

text \<open>JavaScript truthiness (\<^verbatim>\<open>!data\<close>, \<^verbatim>\<open>a && b\<close>, \<^verbatim>\<open>a || b\<close>).\<close>

fun truthy :: "jsval \<Rightarrow> bool" where
  "truthy JUndefined = False"
| "truthy JNull = False"
| "truthy (JBool b) = b"
| "truthy (JNum n) = (n \<noteq> 0)"
| "truthy (JStr s) = (s \<noteq> [])"
| "truthy (JRef a) = True"

text \<open>
  Reading a property \<^verbatim>\<open>v.k\<close> or \<^verbatim>\<open>v[k]\<close>: a \<^verbatim>\<open>TypeError\<close> on \<^verbatim>\<open>null\<close> and
  \<^verbatim>\<open>undefined\<close>, \<^verbatim>\<open>undefined\<close> for a property that is not there.
\<close>

fun obj_get :: "jsobj \<Rightarrow> pkey \<Rightarrow> jsval" where
  "obj_get (Obj ps) k = (case map_of ps k of Some v \<Rightarrow> v | None \<Rightarrow> JUndefined)"
| "obj_get (Arr vs) (Index i) = (if i < length vs then vs ! i else JUndefined)"
| "obj_get (Arr vs) (Name n) = JUndefined"
| "obj_get (Uint8Array bs) (Index i) = (if i < length bs then JNum (uint (bs ! i)) else JUndefined)"
| "obj_get (Uint8Array bs) (Name n) = JUndefined"
| "obj_get (ArrayBuffer bs) k = JUndefined"

fun getProp :: "heap \<Rightarrow> jsval \<Rightarrow> pkey \<Rightarrow> error + jsval" where
  "getProp h JUndefined k = Inl TypeError"
| "getProp h JNull k = Inl TypeError"
| "getProp h (JBool b) k = Inr JUndefined"
| "getProp h (JNum n) k = Inr JUndefined"
| "getProp h (JStr s) (Index i) = Inr (if i < length s then JStr [s ! i] else JUndefined)"
| "getProp h (JStr s) (Name n) = Inr JUndefined"
| "getProp h (JRef a) k = Inr (case lookup h a of Some ob \<Rightarrow> obj_get ob k | None \<Rightarrow> JUndefined)"

text \<open>
  Writing a property of the object at an address. An existing property of a plain object
  keeps its position, a new one is added last; an array written beyond its end is
  extended by JavaScript; a typed array stores a number as a byte and ignores a write
  beyond its end. The remaining cases (a name on an array or a buffer, a value that is
  not a number in a typed array) are never reached by the program and leave the object
  as it is.
\<close>

fun put :: "pkey \<Rightarrow> jsval \<Rightarrow> (pkey \<times> jsval) list \<Rightarrow> (pkey \<times> jsval) list" where
  "put k v [] = [(k, v)]"
| "put k v (p # ps) = (if fst p = k then (k, v) # ps else p # put k v ps)"

fun obj_set :: "jsobj \<Rightarrow> pkey \<Rightarrow> jsval \<Rightarrow> jsobj" where
  "obj_set (Obj ps) k v = Obj (put k v ps)"
| "obj_set (Arr vs) (Index i) v =
     (if i < length vs then Arr (vs[i := v])
      else Arr (vs @ replicate (i - length vs) JUndefined @ [v]))"
| "obj_set (Uint8Array bs) (Index i) (JNum n) =
     (if i < length bs then Uint8Array (bs[i := word_of_int n]) else Uint8Array bs)"
| "obj_set ob k v = ob"

definition setProp :: "heap \<Rightarrow> addr \<Rightarrow> pkey \<Rightarrow> jsval \<Rightarrow> heap" where
  "setProp h a k v = (if a < length h then h[a := obj_set (h ! a) k v] else h)"

text \<open>The keys a \<^verbatim>\<open>for (const key in data)\<close> loop visits.\<close>

fun own_keys :: "jsobj \<Rightarrow> pkey list" where
  "own_keys (Obj ps) = map fst ps"
| "own_keys (Arr vs) = map Index [0..<length vs]"
| "own_keys (Uint8Array bs) = map Index [0..<length bs]"
| "own_keys (ArrayBuffer bs) = []"

definition forin_keys :: "heap \<Rightarrow> addr \<Rightarrow> pkey list" where
  "forin_keys h a = (case lookup h a of Some ob \<Rightarrow> own_keys ob | None \<Rightarrow> [])"

text \<open>The properties an object spread \<^verbatim>\<open>{...v}\<close> copies.\<close>

fun obj_props :: "jsobj \<Rightarrow> (pkey \<times> jsval) list" where
  "obj_props (Obj ps) = ps"
| "obj_props (Arr vs) = zip (map Index [0..<length vs]) vs"
| "obj_props (Uint8Array bs) = zip (map Index [0..<length bs]) (map (\<lambda>b. JNum (uint b)) bs)"
| "obj_props (ArrayBuffer bs) = []"

fun own_props :: "heap \<Rightarrow> jsval \<Rightarrow> (pkey \<times> jsval) list" where
  "own_props h (JStr s) = zip (map Index [0..<length s]) (map (\<lambda>c. JStr [c]) s)"
| "own_props h (JRef a) = (case lookup h a of Some ob \<Rightarrow> obj_props ob | None \<Rightarrow> [])"
| "own_props h v = []"

fun typeof :: "jsval \<Rightarrow> string" where
  "typeof JUndefined = ''undefined''"
| "typeof JNull = ''object''"
| "typeof (JBool b) = ''boolean''"
| "typeof (JNum n) = ''number''"
| "typeof (JStr s) = ''string''"
| "typeof (JRef a) = ''object''"

text \<open>\<^verbatim>\<open>data instanceof Uint8Array\<close>, and the bytes of such a value.\<close>

definition instanceof_Uint8Array :: "heap \<Rightarrow> jsval \<Rightarrow> bool" where
  "instanceof_Uint8Array h v =
     (case v of
        JRef a \<Rightarrow> (case lookup h a of Some (Uint8Array bs) \<Rightarrow> True | _ \<Rightarrow> False)
      | _ \<Rightarrow> False)"

definition bytes_of :: "heap \<Rightarrow> jsval \<Rightarrow> byte list" where
  "bytes_of h v =
     (case v of
        JRef a \<Rightarrow> (case lookup h a of Some (Uint8Array bs) \<Rightarrow> bs | _ \<Rightarrow> [])
      | _ \<Rightarrow> [])"

section \<open>The collaborators of the parser\<close>

text \<open>
  The module imports its collaborators from files that are not part of the verified
  source; they are parameters of the model.
  \<^item> \<open>isBinaryXVIZ\<close>, \<open>parseBinaryXVIZ\<close>: the binary codec. It recognises a byte buffer by
    its magic bytes, so it is asked about buffers only, and it builds its result from
    fresh objects: it returns the value and the objects to add at the given address.
  \<^item> \<open>textDecode\<close> is \<^verbatim>\<open>new TextDecoder('utf8').decode\<close>, \<open>jsonParse\<close> is
    \<^verbatim>\<open>JSON.parse\<close>, which also builds fresh objects and raises on malformed text.
  \<^item> \<open>parseLogMetadata\<close>, \<open>parseTimesliceDataV1\<close>, \<open>parseTimesliceDataV2\<close> take the store
    and may change it.
  \<^item> \<open>currentMajorVersion\<close> is the field of \<^verbatim>\<open>getXVIZSettings()\<close> read at each call.
  \<^item> \<open>LOG_STREAM_MESSAGE\<close> holds the canonical type tags.
\<close>

datatype event = OnResult jsval | OnError error

type_synonym 'a callback = "'a \<Rightarrow> error option"

record log_stream_message =
  METADATA :: jsval
  ERROR :: jsval
  DONE :: jsval

record externals =
  isBinaryXVIZ :: "jsobj \<Rightarrow> bool"
  parseBinaryXVIZ :: "addr \<Rightarrow> jsobj \<Rightarrow> error + jsval \<times> jsobj list"
  textDecode :: "byte list \<Rightarrow> string"
  jsonParse :: "addr \<Rightarrow> string \<Rightarrow> error + jsval \<times> jsobj list"
  parseLogMetadata :: "heap \<Rightarrow> jsval \<Rightarrow> error + jsval \<times> heap"
  parseTimesliceDataV1 :: "heap \<Rightarrow> jsval \<Rightarrow> jsval \<Rightarrow> error + jsval \<times> heap"
  parseTimesliceDataV2 :: "heap \<Rightarrow> jsval \<Rightarrow> jsval \<Rightarrow> error + jsval \<times> heap"
  parseStreamVideoMessage ::
    "nat \<Rightarrow> jsval callback \<Rightarrow> error callback \<Rightarrow> event list \<times> error option"
  currentMajorVersion :: jsval
  LOG_STREAM_MESSAGE :: log_stream_message

section \<open>Decoding\<close>

text \<open>
  \<^verbatim>\<open>isJSON(encodedString)\<close> compares the first and the last byte, as characters, with
  the brackets. On an empty array both reads are \<^verbatim>\<open>undefined\<close> and
  \<^verbatim>\<open>String.fromCharCode\<close> gives the character of code 0.
\<close>

definition fromCharCode :: "byte list \<Rightarrow> nat \<Rightarrow> char" where
  "fromCharCode bs i = (if i < length bs then char_of (unat (bs ! i)) else char_of (0::nat))"

definition isJSON :: "byte list \<Rightarrow> bool" where
  "isJSON encodedString =
     (let firstChar = fromCharCode encodedString 0;
          lastChar = (if encodedString = [] then char_of (0::nat)
                      else fromCharCode encodedString (length encodedString - 1))
      in (firstChar = CHR ''{'' \<and> lastChar = CHR ''}'') \<or>
         (firstChar = CHR ''['' \<and> lastChar = CHR '']''))"

text \<open>\<^verbatim>\<open>isBinaryXVIZ(data)\<close> and \<^verbatim>\<open>parseBinaryXVIZ(data)\<close> on a value of the store.\<close>

definition isBinary :: "externals \<Rightarrow> heap \<Rightarrow> jsval \<Rightarrow> bool" where
  "isBinary env h v =
     (case v of
        JRef a \<Rightarrow>
          (case lookup h a of
             Some (Uint8Array bs) \<Rightarrow> isBinaryXVIZ env (Uint8Array bs)
           | Some (ArrayBuffer bs) \<Rightarrow> isBinaryXVIZ env (ArrayBuffer bs)
           | _ \<Rightarrow> False)
      | _ \<Rightarrow> False)"

definition parseBinary :: "externals \<Rightarrow> heap \<Rightarrow> jsval \<Rightarrow> error + jsval \<times> heap" where
  "parseBinary env h v =
     (case v of
        JRef a \<Rightarrow>
          (case lookup h a of
             Some ob \<Rightarrow>
               (case parseBinaryXVIZ env (length h) ob of
                  Inl e \<Rightarrow> Inl e
                | Inr (r, new) \<Rightarrow> Inr (r, h @ new))
           | None \<Rightarrow> Inr (v, h))
      | _ \<Rightarrow> Inr (v, h))"

text \<open>
  \<^verbatim>\<open>decode(data, recursive)\<close>, with the loop over the keys of \<^verbatim>\<open>data\<close> as
  \<open>decode_keys\<close>: each field is read, decoded with \<^verbatim>\<open>recursive = false\<close> and written
  back into the same object. The function returns \<^verbatim>\<open>data\<close> itself afterwards.
\<close>

function decode :: "externals \<Rightarrow> heap \<Rightarrow> jsval \<Rightarrow> bool \<Rightarrow> error + jsval \<times> heap"
  and decode_keys :: "externals \<Rightarrow> heap \<Rightarrow> addr \<Rightarrow> pkey list \<Rightarrow> error + heap"
where
  "decode env h dat recursive =
     (if \<not> truthy dat then Inr (dat, h)
      else if isBinary env h dat then parseBinary env h dat
      else if instanceof_Uint8Array h dat \<and> isJSON (bytes_of h dat) then
        (case jsonParse env (length h) (textDecode env (bytes_of h dat)) of
           Inl e \<Rightarrow> Inl e
         | Inr (r, new) \<Rightarrow> Inr (r, h @ new))
      else if recursive \<and> typeof dat = ''object'' then
        (case dat of
           JRef a \<Rightarrow>
             (case decode_keys env h a (forin_keys h a) of
                Inl e \<Rightarrow> Inl e
              | Inr h' \<Rightarrow> Inr (dat, h'))
         | _ \<Rightarrow> Inr (dat, h))
      else Inr (dat, h))"
| "decode_keys env h a [] = Inr h"
| "decode_keys env h a (key # keys) =
     (case getProp h (JRef a) key of
        Inl e \<Rightarrow> Inl e
      | Inr v \<Rightarrow>
          (case decode env h v False of
             Inl e \<Rightarrow> Inl e
           | Inr (r, h') \<Rightarrow> decode_keys env (setProp h' a key r) a keys))"
  by pat_completeness auto
termination
  by (relation "measure (\<lambda>x. case x of
        Inl (env, h, dat, recursive) \<Rightarrow> (if recursive then 2 + length (forin_keys h (case dat of JRef a \<Rightarrow> a | _ \<Rightarrow> 0)) else 0)
      | Inr (env, h, a, keys) \<Rightarrow> 1 + length keys)") auto

section \<open>Envelopes\<close>

text \<open>
  \<^verbatim>\<open>String.prototype.split\<close> with a one-character separator and
  \<^verbatim>\<open>Array.prototype.join\<close>. Splitting always gives at least one part.
\<close>

fun split :: "char \<Rightarrow> string \<Rightarrow> string list" where
  "split c [] = [[]]"
| "split c (x # xs) =
     (if x = c then [] # split c xs
      else (case split c xs of p # ps \<Rightarrow> (x # p) # ps | [] \<Rightarrow> [[x]]))"

fun join :: "string \<Rightarrow> string list \<Rightarrow> string" where
  "join sep [] = []"
| "join sep [p] = p"
| "join sep (p # q # ps) = p @ sep @ join sep (q # ps)"

record envelope =
  namespace :: string
  type :: string
  data :: jsval

text \<open>
  \<^verbatim>\<open>unpackEnvelope(data)\<close>: \<^verbatim>\<open>data.type.split('/')\<close> is a \<^verbatim>\<open>TypeError\<close> unless
  \<^verbatim>\<open>data.type\<close> is a string (no other value of this model has a \<^verbatim>\<open>split\<close> method).
\<close>

definition unpackEnvelope :: "heap \<Rightarrow> jsval \<Rightarrow> error + envelope" where
  "unpackEnvelope h dat =
     (case getProp h dat (Name ''type'') of
        Inl e \<Rightarrow> Inl e
      | Inr (JStr s) \<Rightarrow>
          (let parts = split CHR ''/'' s in
           case getProp h dat (Name ''data'') of
             Inl e \<Rightarrow> Inl e
           | Inr d \<Rightarrow> Inr \<lparr>namespace = hd parts, type = join ''/'' (tl parts), data = d\<rparr>)
      | Inr _ \<Rightarrow> Inl TypeError)"

text \<open>\<^verbatim>\<open>isEnvelope(data)\<close> returns the value of \<^verbatim>\<open>data.type && data.data\<close>.\<close>

definition isEnvelope :: "heap \<Rightarrow> jsval \<Rightarrow> error + jsval" where
  "isEnvelope h dat =
     (case getProp h dat (Name ''type'') of
        Inl e \<Rightarrow> Inl e
      | Inr t \<Rightarrow> if truthy t then getProp h dat (Name ''data'') else Inr t)"

section \<open>Routing a decoded message\<close>

text \<open>
  \<^verbatim>\<open>checkV2MetadataFields(data)\<close> tests
  \<^verbatim>\<open>data.streams && data.version && data.version === '2.0.0'\<close> and then assigns
  \<^verbatim>\<open>data.type = 'metadata'\<close> in place. The module is strict code, where assigning a
  property of a primitive is a \<^verbatim>\<open>TypeError\<close>.
\<close>

definition checkV2MetadataFields :: "heap \<Rightarrow> jsval \<Rightarrow> error + heap" where
  "checkV2MetadataFields h dat =
     (case getProp h dat (Name ''streams'') of
        Inl e \<Rightarrow> Inl e
      | Inr streams \<Rightarrow>
          if \<not> truthy streams then Inr h
          else
            (case getProp h dat (Name ''version'') of
               Inl e \<Rightarrow> Inl e
             | Inr version \<Rightarrow>
                 if truthy version \<and> version = JStr ''2.0.0'' then
                   (case dat of
                      JRef a \<Rightarrow> Inr (setProp h a (Name ''type'') (JStr ''metadata''))
                    | _ \<Rightarrow> Inl TypeError)
                 else Inr h))"

text \<open>The discriminant of the switch: \<^verbatim>\<open>data.type || data.message || data.update_type\<close>.\<close>

definition discriminator :: "heap \<Rightarrow> jsval \<Rightarrow> error + jsval" where
  "discriminator h dat =
     (case getProp h dat (Name ''type'') of
        Inl e \<Rightarrow> Inl e
      | Inr t \<Rightarrow>
          if truthy t then Inr t
          else
            (case getProp h dat (Name ''message'') of
               Inl e \<Rightarrow> Inl e
             | Inr m \<Rightarrow> if truthy m then Inr m else getProp h dat (Name ''update_type'')))"

text \<open>\<^verbatim>\<open>parseTimesliceData(data, convertPrimitive)\<close>: the version gate.\<close>

definition parseTimesliceData ::
  "externals \<Rightarrow> heap \<Rightarrow> jsval \<Rightarrow> jsval \<Rightarrow> error + jsval \<times> heap" where
  "parseTimesliceData env h dat convertPrimitive =
     (if currentMajorVersion env = JNum 1
      then parseTimesliceDataV1 env h dat convertPrimitive
      else parseTimesliceDataV2 env h dat convertPrimitive)"

text \<open>
  The switch statement of \<^verbatim>\<open>parseStreamLogData\<close> on the value \<open>d\<close> of its discriminant.
  An object literal is a fresh object, placed at the end of the store. With the default
  \<^verbatim>\<open>opts = {}\<close>, \<^verbatim>\<open>opts.convertPrimitive\<close> is \<^verbatim>\<open>undefined\<close>.
\<close>

definition dispatch ::
  "externals \<Rightarrow> heap \<Rightarrow> jsval \<Rightarrow> jsval \<Rightarrow> jsval \<Rightarrow> error + jsval \<times> heap" where
  "dispatch env h dat opts d =
     (if d = JStr ''metadata'' then
        (case parseLogMetadata env h dat of
           Inl e \<Rightarrow> Inl e
         | Inr (m, h') \<Rightarrow>
             Inr (JRef (length h'),
                  h' @ [Obj (put (Name ''type'') (METADATA (LOG_STREAM_MESSAGE env))
                              (own_props h' m))]))
      else if d = JStr ''error'' then
        Inr (JRef (length h),
             h @ [Obj (put (Name ''type'') (ERROR (LOG_STREAM_MESSAGE env))
                        (put (Name ''message'') (JStr ''Stream server error'')
                          (own_props h dat)))])
      else if d = JStr ''done'' then
        Inr (JRef (length h),
             h @ [Obj (put (Name ''type'') (DONE (LOG_STREAM_MESSAGE env)) (own_props h dat))])
      else if d = JStr ''ack'' then Inr (JNull, h)
      else
        (case (if opts = JUndefined then Inr JUndefined
               else getProp h opts (Name ''convertPrimitive'')) of
           Inl e \<Rightarrow> Inl e
         | Inr convertPrimitive \<Rightarrow> parseTimesliceData env h dat convertPrimitive))"

definition parseStreamLogData ::
  "externals \<Rightarrow> heap \<Rightarrow> jsval \<Rightarrow> jsval \<Rightarrow> error + jsval \<times> heap" where
  "parseStreamLogData env h dat opts =
     (case checkV2MetadataFields h dat of
        Inl e \<Rightarrow> Inl e
      | Inr h' \<Rightarrow>
          (case discriminator h' dat of
             Inl e \<Rightarrow> Inl e
           | Inr d \<Rightarrow> dispatch env h' dat opts d))"

section \<open>The entry point\<close>

text \<open>
  A message is a \<^verbatim>\<open>Blob\<close>, handed to the video parser with both callbacks, or any
  other value. A callback is a function of the caller: it returns normally
  (\<open>None\<close>) or throws (\<open>Some e\<close>). \<open>parseStreamDataMessage\<close> gives the calls it made to
  the callbacks, in order, and the exception that leaves it, if any.
\<close>

datatype message = BlobMessage nat | Message jsval

text \<open>The first statement of the try block: the decoded \<^verbatim>\<open>data\<close>.\<close>

definition decodeMessage :: "externals \<Rightarrow> heap \<Rightarrow> jsval \<Rightarrow> error + jsval \<times> heap" where
  "decodeMessage env h msg =
     (if typeof msg = ''string'' then
        (case msg of
           JStr s \<Rightarrow>
             (case jsonParse env (length h) s of
                Inl e \<Rightarrow> Inl e
              | Inr (r, new) \<Rightarrow> Inr (r, h @ new))
         | _ \<Rightarrow> Inr (msg, h))
      else decode env h msg True)"

text \<open>
  The body of the try block: the calls made and how the block ends, normally or with an
  exception. \<^verbatim>\<open>onResult(result)\<close> is a statement of the block.
\<close>

definition tryBlock ::
  "externals \<Rightarrow> heap \<Rightarrow> jsval \<Rightarrow> jsval callback \<Rightarrow> jsval \<Rightarrow> event list \<times> error option" where
  "tryBlock env h msg onResult opts =
     (case decodeMessage env h msg of
        Inl e \<Rightarrow> ([], Some e)
      | Inr (dat, h') \<Rightarrow>
          (case isEnvelope h' dat of
             Inl e \<Rightarrow> ([], Some e)
           | Inr is_env \<Rightarrow>
               (case (if truthy is_env then
                        (case unpackEnvelope h' dat of
                           Inl e \<Rightarrow> Inl e
                         | Inr unpacked \<Rightarrow>
                             if namespace unpacked = ''xviz'' then Inr (True, data unpacked)
                             else Inr (False, dat))
                      else Inr (True, dat)) of
                  Inl e \<Rightarrow> ([], Some e)
                | Inr (parseData, dat') \<Rightarrow>
                    if parseData then
                      (case parseStreamLogData env h' dat' opts of
                         Inl e \<Rightarrow> ([], Some e)
                       | Inr (result, h'') \<Rightarrow> ([OnResult result], onResult result))
                    else ([], None))))"

definition parseStreamDataMessage ::
  "externals \<Rightarrow> heap \<Rightarrow> message \<Rightarrow> jsval callback \<Rightarrow> error callback \<Rightarrow> jsval \<Rightarrow>
     event list \<times> error option" where
  "parseStreamDataMessage env h msg onResult onError opts =
     (case msg of
        BlobMessage b \<Rightarrow> parseStreamVideoMessage env b onResult onError
      | Message m \<Rightarrow>
          (case tryBlock env h m onResult opts of
             (calls, Some e) \<Rightarrow> (calls @ [OnError e], onError e)
           | (calls, None) \<Rightarrow> (calls, None)))"

text \<open>
  A foreign envelope: the message decodes to a value with truthy \<^verbatim>\<open>type\<close> and \<^verbatim>\<open>data\<close>
  that unpacks to a namespace other than \<^verbatim>\<open>xviz\<close>.
\<close>

definition foreignEnvelope :: "externals \<Rightarrow> heap \<Rightarrow> jsval \<Rightarrow> bool" where
  "foreignEnvelope env h msg =
     (case decodeMessage env h msg of
        Inl e \<Rightarrow> False
      | Inr (dat, h') \<Rightarrow>
          (case isEnvelope h' dat of
             Inl e \<Rightarrow> False
           | Inr is_env \<Rightarrow>
               truthy is_env \<and>
               (case unpackEnvelope h' dat of
                  Inl e \<Rightarrow> False
                | Inr unpacked \<Rightarrow> namespace unpacked \<noteq> ''xviz'')))"

section \<open>Predicates on stored values\<close>

text \<open>
  The vocabulary of the statements about \<open>decode\<close>: a structural object is a plain
  object or an array; a value is valid in a store when it is no dangling reference; a
  value is encoded when \<^verbatim>\<open>decode(value, false)\<close> replaces it, that is when it is a
  binary-protocol buffer or a \<^verbatim>\<open>Uint8Array\<close> holding JSON; the field values of a value
  are the values of the properties of the object it refers to.
\<close>

fun struct :: "jsobj \<Rightarrow> bool" where
  "struct (Obj ps) = True"
| "struct (Arr vs) = True"
| "struct ob = False"

definition valid :: "heap \<Rightarrow> jsval \<Rightarrow> bool" where
  "valid h v = (case v of JRef b \<Rightarrow> b < length h | _ \<Rightarrow> True)"

definition encoded :: "externals \<Rightarrow> heap \<Rightarrow> jsval \<Rightarrow> bool" where
  "encoded env h v =
     (isBinary env h v \<or> (instanceof_Uint8Array h v \<and> isJSON (bytes_of h v)))"

definition field_values :: "heap \<Rightarrow> jsval \<Rightarrow> jsval list" where
  "field_values h v =
     (case v of
        JRef a \<Rightarrow> (case lookup h a of Some ob \<Rightarrow> map snd (obj_props ob) | None \<Rightarrow> [])
      | _ \<Rightarrow> [])"

section \<open>A concrete environment\<close>

text \<open>
  One choice of collaborators, for evaluating the parser on concrete messages: a codec
  that recognises an \<^verbatim>\<open>ArrayBuffer\<close> starting with the bytes of \<^verbatim>\<open>XVIZ\<close> and rejects
  a truncated one, a JSON parser that knows two texts, a metadata parser that returns
  its argument, and timeslice decoders that name themselves.
\<close>

definition env0 :: externals where
  "env0 = \<lparr>
     isBinaryXVIZ = (\<lambda>ob. case ob of ArrayBuffer bs \<Rightarrow> take 4 bs = [0x58, 0x56, 0x49, 0x5A] | _ \<Rightarrow> False),
     parseBinaryXVIZ = (\<lambda>n ob. case ob of ArrayBuffer bs \<Rightarrow> if length bs < 8 then Inl (Thrown ''truncated'') else Inr (JRef n, [Obj []]) | _ \<Rightarrow> Inl TypeError),
     textDecode = map (\<lambda>b. char_of (unat b)),
     jsonParse = (\<lambda>n s. if s = ''{}'' then Inr (JRef n, [Obj []]) else if s = ''null'' then Inr (JNull, []) else Inl SyntaxError),
     parseLogMetadata = (\<lambda>h v. Inr (v, h)),
     parseTimesliceDataV1 = (\<lambda>h v c. Inr (JStr ''v1'', h)),
     parseTimesliceDataV2 = (\<lambda>h v c. Inr (JStr ''v2'', h)),
     parseStreamVideoMessage = (\<lambda>b r e. ([], None)),
     currentMajorVersion = JNum 2,
     LOG_STREAM_MESSAGE = \<lparr>METADATA = JStr ''METADATA'', ERROR = JStr ''ERROR'', DONE = JStr ''DONE''\<rparr>
   \<rparr>"

section \<open>Splitting and joining\<close>

lemma split_nonempty: "split c s \<noteq> []"
  by (induction s) (auto split: list.splits)

lemma join_split: "join [c] (split c s) = s"
proof (induction s)
  case Nil show ?case by simp
next
  case (Cons x xs)
  obtain p ps where sp: "split c xs = p # ps"
    using split_nonempty [of c xs] by (cases "split c xs") auto
  show ?case using Cons sp by (cases ps) auto
qed

lemma hd_split: "hd (split c s) = takeWhile (\<lambda>x. x \<noteq> c) s"
  by (induction s) (auto split: list.splits simp: split_nonempty)

lemma tl_split: "c \<in> set s \<Longrightarrow> join [c] (tl (split c s)) = tl (dropWhile (\<lambda>x. x \<noteq> c) s)"
  by (induction s) (auto split: list.splits simp: split_nonempty join_split)

section \<open>Facts about the store\<close>

lemma map_of_put: "map_of (put k v ps) k' = (if k' = k then Some v else map_of ps k')"
  by (induction ps) auto

lemma lookup_append_new: "lookup (h @ [ob]) (length h) = Some ob"
  by (simp add: lookup_def)

lemma lookup_append_old: "a < length h \<Longrightarrow> lookup (h @ new) a = lookup h a"
  by (simp add: lookup_def nth_append)

lemma lookup_setProp_same:
  "lookup h a = Some ob \<Longrightarrow> lookup (setProp h a k v) a = Some (obj_set ob k v)"
  by (auto simp: lookup_def setProp_def split: if_splits)

lemma lookup_setProp_other: "b \<noteq> a \<Longrightarrow> lookup (setProp h a k v) b = lookup h b"
  by (auto simp: lookup_def setProp_def)

lemma length_setProp: "length (setProp h a k v) = length h"
  by (simp add: setProp_def)

lemma truthy_named_prop:
  assumes "getProp h dat (Name n) = Inr x" and "truthy x"
  shows "\<exists>a ps. dat = JRef a \<and> lookup h a = Some (Obj ps) \<and> map_of ps (Name n) = Some x"
proof (cases dat)
  case (JRef a)
  show ?thesis
  proof (cases "lookup h a")
    case None
    with assms JRef show ?thesis by auto
  next
    case (Some ob)
    with assms JRef show ?thesis
      by (cases ob) (auto split: option.splits)
  qed
qed (use assms in auto)

lemma checkV2_fires:
  assumes "lookup h a = Some (Obj ps)"
    and "map_of ps (Name ''streams'') = Some s" and "truthy s"
    and "map_of ps (Name ''version'') = Some (JStr ''2.0.0'')"
  shows "checkV2MetadataFields h (JRef a) = Inr (setProp h a (Name ''type'') (JStr ''metadata''))"
  using assms by (simp add: checkV2MetadataFields_def)

lemma discriminator_after_fix:
  assumes "lookup h a = Some (Obj ps)"
  shows "discriminator (setProp h a (Name ''type'') (JStr ''metadata'')) (JRef a) = Inr (JStr ''metadata'')"
  using assms by (simp add: discriminator_def lookup_setProp_same map_of_put)

lemma fixup_cases:
  assumes "checkV2MetadataFields h v = Inr h'"
  shows "h' = h \<or> (\<exists>a ps. v = JRef a \<and> lookup h a = Some (Obj ps) \<and> h' = setProp h a (Name ''type'') (JStr ''metadata''))"
proof (cases "h' = h")
  case False
  from assms False obtain s where s: "getProp h v (Name ''streams'') = Inr s" "truthy s"
    by (auto simp: checkV2MetadataFields_def split: sum.splits if_splits)
  from truthy_named_prop [OF s] obtain a ps where v: "v = JRef a" "lookup h a = Some (Obj ps)"
    by blast
  from assms False s v have "h' = setProp h a (Name ''type'') (JStr ''metadata'')"
    by (auto simp: checkV2MetadataFields_def split: sum.splits if_splits)
  with v show ?thesis by blast
qed simp

lemma fixup_not_metadata:
  assumes "checkV2MetadataFields h v = Inr h'" and "discriminator h' v = Inr d" and "d \<noteq> JStr ''metadata''"
  shows "h' = h"
  using fixup_cases [OF assms(1)] assms(2,3) by (auto simp: discriminator_after_fix)

section \<open>Envelope unpacking\<close>

text \<open>
  Claim C4. For a value whose \<^verbatim>\<open>type\<close> is a string containing a slash and whose
  \<^verbatim>\<open>data\<close> field reads as \<open>d\<close>, \<open>unpackEnvelope\<close> returns as namespace the text before
  the first slash, as type the text after it, and \<open>d\<close> itself as data; the namespace,
  a slash and the type put together give the original string back.
\<close>

theorem unpackEnvelope_roundtrip:
  assumes "getProp h v (Name ''type'') = Inr (JStr s)"
    and "getProp h v (Name ''data'') = Inr d"
    and "CHR ''/'' \<in> set s"
  shows "\<exists>u. unpackEnvelope h v = Inr u
           \<and> namespace u = takeWhile (\<lambda>c. c \<noteq> CHR ''/'') s
           \<and> type u = tl (dropWhile (\<lambda>c. c \<noteq> CHR ''/'') s)
           \<and> data u = d
           \<and> namespace u @ ''/'' @ type u = s"
proof -
  let ?u = "\<lparr>namespace = hd (split CHR ''/'' s), type = join ''/'' (tl (split CHR ''/'' s)), data = d\<rparr>"
  have u: "unpackEnvelope h v = Inr ?u"
    using assms(1,2) by (simp add: unpackEnvelope_def Let_def)
  have ns: "namespace ?u = takeWhile (\<lambda>c. c \<noteq> CHR ''/'') s"
    by (simp add: hd_split)
  have ty: "type ?u = tl (dropWhile (\<lambda>c. c \<noteq> CHR ''/'') s)"
    using assms(3) by (simp add: tl_split)
  have "dropWhile (\<lambda>c. c \<noteq> CHR ''/'') s \<noteq> []"
    using assms(3) by (simp add: dropWhile_eq_Nil_conv) 
  then have "hd (dropWhile (\<lambda>c. c \<noteq> CHR ''/'') s) # tl (dropWhile (\<lambda>c. c \<noteq> CHR ''/'') s) = dropWhile (\<lambda>c. c \<noteq> CHR ''/'') s"
    by simp
  moreover have "hd (dropWhile (\<lambda>c. c \<noteq> CHR ''/'') s) = CHR ''/''"
    using assms(3) hd_dropWhile [of "\<lambda>c. c \<noteq> CHR ''/''" s] by (auto simp: dropWhile_eq_Nil_conv)
  ultimately have "takeWhile (\<lambda>c. c \<noteq> CHR ''/'') s @ ''/'' @ tl (dropWhile (\<lambda>c. c \<noteq> CHR ''/'') s) = s"
    using takeWhile_dropWhile_id [of "\<lambda>c. c \<noteq> CHR ''/''" s] by simp
  with u ns ty show ?thesis by (intro exI [of _ ?u]) simp
qed

theorem unpackEnvelope_roundtrip_witness:
  "unpackEnvelope [Obj [(Name ''type'', JStr ''xviz/foo/bar''), (Name ''data'', JRef 1)], Obj []] (JRef 0)
     = Inr \<lparr>namespace = ''xviz'', type = ''foo/bar'', data = JRef 1\<rparr>
   \<and> ''xviz'' @ ''/'' @ ''foo/bar'' = ''xviz/foo/bar''"
proof -
  let ?h = "[Obj [(Name ''type'', JStr ''xviz/foo/bar''), (Name ''data'', JRef 1)], Obj []]"
  have t: "getProp ?h (JRef 0) (Name ''type'') = Inr (JStr ''xviz/foo/bar'')"
    by (simp add: lookup_def)
  have d: "getProp ?h (JRef 0) (Name ''data'') = Inr (JRef 1)"
    by (simp add: lookup_def)
  have s: "CHR ''/'' \<in> set ''xviz/foo/bar''" by simp
  from unpackEnvelope_roundtrip [OF t d s] obtain u where
    "unpackEnvelope ?h (JRef 0) = Inr u" "namespace u = ''xviz''" "type u = ''foo/bar''" "data u = JRef 1"
    by auto
  then show ?thesis by simp
qed

lemma getProp_new_Obj:
  "getProp (h @ [Obj ps]) (JRef (length h)) k
     = Inr (case map_of ps k of Some v \<Rightarrow> v | None \<Rightarrow> JUndefined)"
  by (simp add: lookup_append_new)

section \<open>The version gate\<close>

text \<open>
  Claim C8. A data update is a message whose discriminant is none of \<^verbatim>\<open>metadata\<close>,
  \<^verbatim>\<open>error\<close>, \<^verbatim>\<open>done\<close>, \<^verbatim>\<open>ack\<close> (so \<^verbatim>\<open>snapshot\<close>, \<^verbatim>\<open>incremental\<close>, anything
  else, or \<^verbatim>\<open>undefined\<close>). For such a message \<open>parseStreamLogData\<close> leaves the store as
  it is and hands the message and \<^verbatim>\<open>opts.convertPrimitive\<close> to the v1 decoder when the
  configured major version is the number 1, and to the v2 decoder otherwise.
\<close>

theorem version_gate:
  assumes "checkV2MetadataFields h v = Inr h'"
    and "discriminator h' v = Inr d"
    and "d \<notin> {JStr ''metadata'', JStr ''error'', JStr ''done'', JStr ''ack''}"
    and "(if opts = JUndefined then Inr JUndefined
          else getProp h opts (Name ''convertPrimitive'')) = Inr convertPrimitive"
  shows "h' = h \<and>
         parseStreamLogData env h v opts =
           (if currentMajorVersion env = JNum 1
            then parseTimesliceDataV1 env h v convertPrimitive
            else parseTimesliceDataV2 env h v convertPrimitive)"
proof -
  from assms(3) have "d \<noteq> JStr ''metadata''" by simp
  from fixup_not_metadata [OF assms(1,2) this] have h: "h' = h" .
  from assms(3) have d: "d \<noteq> JStr ''metadata''" "d \<noteq> JStr ''error''" "d \<noteq> JStr ''done''" "d \<noteq> JStr ''ack''"
    by simp_all
  have "dispatch env h v opts d = parseTimesliceData env h v convertPrimitive"
    using d assms(4) by (simp add: dispatch_def)
  with assms(1,2) h show ?thesis
    by (simp add: parseStreamLogData_def parseTimesliceData_def)
qed

theorem version_gate_witness:
  "parseStreamLogData (env0\<lparr>currentMajorVersion := JNum 1\<rparr>)
       [Obj [(Name ''update_type'', JStr ''snapshot'')]] (JRef 0) JUndefined
     = Inr (JStr ''v1'', [Obj [(Name ''update_type'', JStr ''snapshot'')]])
   \<and> parseStreamLogData env0 [Obj [(Name ''update_type'', JStr ''snapshot'')]] (JRef 0) JUndefined
     = Inr (JStr ''v2'', [Obj [(Name ''update_type'', JStr ''snapshot'')]])"
proof -
  let ?h = "[Obj [(Name ''update_type'', JStr ''snapshot'')]]"
  have a: "checkV2MetadataFields ?h (JRef 0) = Inr ?h"
    by (simp add: checkV2MetadataFields_def lookup_def)
  have b: "discriminator ?h (JRef 0) = Inr (JStr ''snapshot'')"
    by (simp add: discriminator_def lookup_def)
  have c: "JStr ''snapshot'' \<notin> {JStr ''metadata'', JStr ''error'', JStr ''done'', JStr ''ack''}"
    by simp
  have d: "(if JUndefined = JUndefined then Inr JUndefined
            else getProp ?h JUndefined (Name ''convertPrimitive'')) = Inr JUndefined"
    by simp
  show ?thesis
    using version_gate [OF a b c d, of "env0\<lparr>currentMajorVersion := JNum 1\<rparr>"]
      version_gate [OF a b c d, of env0]
    by (simp add: env0_def)
qed

section \<open>The v2 metadata fixup\<close>

text \<open>
  Claim C1, as the code has it. \<open>checkV2MetadataFields\<close> writes \<^verbatim>\<open>type = 'metadata'\<close>
  into the message exactly when its \<^verbatim>\<open>streams\<close> field is truthy and its \<^verbatim>\<open>version\<close>
  field is the string \<^verbatim>\<open>2.0.0\<close>, whether or not the message has a \<^verbatim>\<open>type\<close> already;
  the message is then routed as metadata. Otherwise the message is left as it is.
\<close>

theorem v2_metadata_fixup:
  assumes "getProp h v (Name ''streams'') = Inr streams"
    and "getProp h v (Name ''version'') = Inr version"
  shows "(truthy streams \<and> version = JStr ''2.0.0'' \<longrightarrow>
           (\<exists>a. v = JRef a
              \<and> checkV2MetadataFields h v = Inr (setProp h a (Name ''type'') (JStr ''metadata''))
              \<and> getProp (setProp h a (Name ''type'') (JStr ''metadata'')) v (Name ''type'')
                   = Inr (JStr ''metadata'')
              \<and> parseStreamLogData env h v opts
                   = dispatch env (setProp h a (Name ''type'') (JStr ''metadata'')) v opts
                       (JStr ''metadata'')))
       \<and> (\<not> (truthy streams \<and> version = JStr ''2.0.0'') \<longrightarrow>
            checkV2MetadataFields h v = Inr h)"
proof (intro conjI impI)
  assume fire: "truthy streams \<and> version = JStr ''2.0.0''"
  from truthy_named_prop [OF assms(1)] fire obtain a ps where
    v: "v = JRef a" "lookup h a = Some (Obj ps)" by blast
  let ?h = "setProp h a (Name ''type'') (JStr ''metadata'')"
  have c: "checkV2MetadataFields h v = Inr ?h"
    using assms fire v(1) by (simp add: checkV2MetadataFields_def)
  have g: "getProp ?h v (Name ''type'') = Inr (JStr ''metadata'')"
    using v by (simp add: lookup_setProp_same map_of_put)
  have "parseStreamLogData env h v opts = dispatch env ?h v opts (JStr ''metadata'')"
    using c v discriminator_after_fix [OF v(2)] by (simp add: parseStreamLogData_def)
  with v(1) c g show "\<exists>a. v = JRef a
      \<and> checkV2MetadataFields h v = Inr (setProp h a (Name ''type'') (JStr ''metadata''))
      \<and> getProp (setProp h a (Name ''type'') (JStr ''metadata'')) v (Name ''type'')
           = Inr (JStr ''metadata'')
      \<and> parseStreamLogData env h v opts
           = dispatch env (setProp h a (Name ''type'') (JStr ''metadata'')) v opts
               (JStr ''metadata'')"
    by blast
next
  assume "\<not> (truthy streams \<and> version = JStr ''2.0.0'')"
  with assms show "checkV2MetadataFields h v = Inr h"
    by (auto simp: checkV2MetadataFields_def)
qed

theorem v2_metadata_fixup_witness:
  "checkV2MetadataFields
       [Obj [(Name ''streams'', JRef 1), (Name ''version'', JStr ''2.0.0'')], Obj []] (JRef 0)
     = Inr [Obj [(Name ''streams'', JRef 1), (Name ''version'', JStr ''2.0.0''),
                 (Name ''type'', JStr ''metadata'')], Obj []]
   \<and> parseStreamLogData env0
       [Obj [(Name ''streams'', JRef 1), (Name ''version'', JStr ''2.0.0'')], Obj []] (JRef 0)
       JUndefined
     = Inr (JRef 2,
            [Obj [(Name ''streams'', JRef 1), (Name ''version'', JStr ''2.0.0''),
                  (Name ''type'', JStr ''metadata'')], Obj [],
             Obj [(Name ''streams'', JRef 1), (Name ''version'', JStr ''2.0.0''),
                  (Name ''type'', JStr ''METADATA'')]])
   \<and> checkV2MetadataFields
       [Obj [(Name ''streams'', JRef 1), (Name ''version'', JStr ''1.0.0'')], Obj []] (JRef 0)
     = Inr [Obj [(Name ''streams'', JRef 1), (Name ''version'', JStr ''1.0.0'')], Obj []]"
proof -
  let ?h = "[Obj [(Name ''streams'', JRef 1), (Name ''version'', JStr ''2.0.0'')], Obj []]"
  let ?g = "[Obj [(Name ''streams'', JRef 1), (Name ''version'', JStr ''1.0.0'')], Obj []]"
  have a: "getProp ?h (JRef 0) (Name ''streams'') = Inr (JRef 1)"
    by (simp add: lookup_def)
  have b: "getProp ?h (JRef 0) (Name ''version'') = Inr (JStr ''2.0.0'')"
    by (simp add: lookup_def)
  have c: "getProp ?g (JRef 0) (Name ''streams'') = Inr (JRef 1)"
    by (simp add: lookup_def)
  have d: "getProp ?g (JRef 0) (Name ''version'') = Inr (JStr ''1.0.0'')"
    by (simp add: lookup_def)
  show ?thesis
    using v2_metadata_fixup [OF a b, of env0 JUndefined] v2_metadata_fixup [OF c d, of env0 JUndefined]
    by (simp add: setProp_def dispatch_def env0_def lookup_def)
qed

text \<open>
  A message with the explicit type \<^verbatim>\<open>done\<close>, a \<^verbatim>\<open>streams\<close> field and version
  \<^verbatim>\<open>2.0.0\<close> has its type overwritten and comes out with the METADATA tag.
\<close>

theorem explicit_type_overwritten_counterexample:
  "checkV2MetadataFields
       [Obj [(Name ''type'', JStr ''done''), (Name ''streams'', JRef 1),
             (Name ''version'', JStr ''2.0.0'')], Obj []] (JRef 0)
     = Inr [Obj [(Name ''type'', JStr ''metadata''), (Name ''streams'', JRef 1),
                 (Name ''version'', JStr ''2.0.0'')], Obj []]
   \<and> parseStreamLogData env0
       [Obj [(Name ''type'', JStr ''done''), (Name ''streams'', JRef 1),
             (Name ''version'', JStr ''2.0.0'')], Obj []] (JRef 0) JUndefined
     = Inr (JRef 2,
            [Obj [(Name ''type'', JStr ''metadata''), (Name ''streams'', JRef 1),
                  (Name ''version'', JStr ''2.0.0'')], Obj [],
             Obj [(Name ''type'', JStr ''METADATA''), (Name ''streams'', JRef 1),
                  (Name ''version'', JStr ''2.0.0'')]])"
  by (simp add: checkV2MetadataFields_def parseStreamLogData_def discriminator_def
      dispatch_def setProp_def lookup_def env0_def)

lemma discriminator_truthy:
  assumes "discriminator h v = Inr d" and "truthy d"
  shows "\<exists>a ps. v = JRef a \<and> lookup h a = Some (Obj ps)"
proof -
  from assms obtain n where "getProp h v (Name n) = Inr d"
    by (auto simp: discriminator_def split: sum.splits if_splits)
  from truthy_named_prop [OF this assms(2)] show ?thesis by blast
qed

lemma keys_put: "fst ` set (put k x ps) = insert k (fst ` set ps)"
  by (induction ps) auto

section \<open>The discriminator\<close>

text \<open>
  Claim C3, as the code has it. Let the fields of a message be readable. The router
  first applies the fixup, which fires when \<^verbatim>\<open>streams\<close> is truthy and \<^verbatim>\<open>version\<close> is
  \<^verbatim>\<open>2.0.0\<close> and then makes the discriminant \<^verbatim>\<open>metadata\<close>; otherwise the store is
  unchanged and the discriminant is the \<^verbatim>\<open>type\<close> field when it is truthy, else the
  \<^verbatim>\<open>message\<close> field when that is truthy, else the \<^verbatim>\<open>update_type\<close> field. The result
  is the metadata record, the error copy, the done copy, \<^verbatim>\<open>null\<close> or the timeslice
  decoder's result, as that discriminant says. In particular a message with type
  \<^verbatim>\<open>done\<close> and message \<^verbatim>\<open>metadata\<close> on which the fixup does not fire is routed as
  done: the result is a copy of it with the DONE tag.
\<close>

theorem discriminator_priority:
  assumes "getProp h v (Name ''type'') = Inr t"
    and "getProp h v (Name ''message'') = Inr m"
    and "getProp h v (Name ''update_type'') = Inr u"
    and "getProp h v (Name ''streams'') = Inr streams"
    and "getProp h v (Name ''version'') = Inr version"
  shows "\<exists>h1. checkV2MetadataFields h v = Inr h1
           \<and> (\<not> (truthy streams \<and> version = JStr ''2.0.0'') \<longrightarrow> h1 = h)
           \<and> parseStreamLogData env h v opts =
               (let d = (if truthy streams \<and> version = JStr ''2.0.0'' then JStr ''metadata''
                         else if truthy t then t else if truthy m then m else u)
                in if d = JStr ''metadata'' then
                     (case parseLogMetadata env h1 v of
                        Inl e \<Rightarrow> Inl e
                      | Inr (md, h2) \<Rightarrow>
                          Inr (JRef (length h2),
                               h2 @ [Obj (put (Name ''type'') (METADATA (LOG_STREAM_MESSAGE env))
                                           (own_props h2 md))]))
                   else if d = JStr ''error'' then
                     Inr (JRef (length h1),
                          h1 @ [Obj (put (Name ''type'') (ERROR (LOG_STREAM_MESSAGE env))
                                      (put (Name ''message'') (JStr ''Stream server error'')
                                        (own_props h1 v)))])
                   else if d = JStr ''done'' then
                     Inr (JRef (length h1),
                          h1 @ [Obj (put (Name ''type'') (DONE (LOG_STREAM_MESSAGE env))
                                      (own_props h1 v))])
                   else if d = JStr ''ack'' then Inr (JNull, h1)
                   else
                     (case (if opts = JUndefined then Inr JUndefined
                            else getProp h1 opts (Name ''convertPrimitive'')) of
                        Inl e \<Rightarrow> Inl e
                      | Inr convertPrimitive \<Rightarrow>
                          if currentMajorVersion env = JNum 1
                          then parseTimesliceDataV1 env h1 v convertPrimitive
                          else parseTimesliceDataV2 env h1 v convertPrimitive))
           \<and> (t = JStr ''done'' \<and> m = JStr ''metadata''
                \<and> \<not> (truthy streams \<and> version = JStr ''2.0.0'') \<longrightarrow>
                parseStreamLogData env h v opts
                  = Inr (JRef (length h),
                         h @ [Obj (put (Name ''type'') (DONE (LOG_STREAM_MESSAGE env))
                                    (own_props h v))]))"
proof -
  let ?d = "if truthy streams \<and> version = JStr ''2.0.0'' then JStr ''metadata''
            else if truthy t then t else if truthy m then m else u"
  obtain h1 where c: "checkV2MetadataFields h v = Inr h1"
    and nf: "\<not> (truthy streams \<and> version = JStr ''2.0.0'') \<longrightarrow> h1 = h"
    and p: "parseStreamLogData env h v opts = dispatch env h1 v opts ?d"
  proof (cases "truthy streams \<and> version = JStr ''2.0.0''")
    case True
    from truthy_named_prop [OF assms(4)] True obtain a ps where
      v: "v = JRef a" "lookup h a = Some (Obj ps)" by blast
    let ?h1 = "setProp h a (Name ''type'') (JStr ''metadata'')"
    have c: "checkV2MetadataFields h v = Inr ?h1"
      using assms(4,5) True v(1) by (simp add: checkV2MetadataFields_def)
    have "parseStreamLogData env h v opts = dispatch env ?h1 v opts (JStr ''metadata'')"
      using c v discriminator_after_fix [OF v(2)] by (simp add: parseStreamLogData_def)
    with c True that [of ?h1] show thesis by simp
  next
    case False
    have c: "checkV2MetadataFields h v = Inr h"
      using assms(4,5) False by (auto simp: checkV2MetadataFields_def)
    have "discriminator h v = Inr (if truthy t then t else if truthy m then m else u)"
      using assms(1-3) by (simp add: discriminator_def)
    with c have "parseStreamLogData env h v opts
        = dispatch env h v opts (if truthy t then t else if truthy m then m else u)"
      by (simp add: parseStreamLogData_def)
    moreover from False have "?d = (if truthy t then t else if truthy m then m else u)"
      by (rule if_not_P)
    ultimately show thesis using c False that [of h] by auto
  qed
  note body = p [unfolded dispatch_def parseTimesliceData_def]
  have part: "parseStreamLogData env h v opts
      = Inr (JRef (length h),
             h @ [Obj (put (Name ''type'') (DONE (LOG_STREAM_MESSAGE env)) (own_props h v))])"
    if a: "t = JStr ''done'' \<and> m = JStr ''metadata''
        \<and> \<not> (truthy streams \<and> version = JStr ''2.0.0'')"
  proof -
    from a nf have "h1 = h" by blast
    moreover from a have "?d = JStr ''done''" by auto
    ultimately show ?thesis using p by (simp add: dispatch_def)
  qed
  from c nf body part show ?thesis unfolding Let_def by blast
qed

theorem discriminator_priority_witness:
  "parseStreamLogData env0
       [Obj [(Name ''type'', JStr ''done''), (Name ''message'', JStr ''metadata'')]] (JRef 0)
       JUndefined
     = Inr (JRef 1,
            [Obj [(Name ''type'', JStr ''done''), (Name ''message'', JStr ''metadata'')],
             Obj [(Name ''type'', JStr ''DONE''), (Name ''message'', JStr ''metadata'')]])"
proof -
  let ?h = "[Obj [(Name ''type'', JStr ''done''), (Name ''message'', JStr ''metadata'')]]"
  have a: "getProp ?h (JRef 0) (Name ''type'') = Inr (JStr ''done'')"
    by (simp add: lookup_def)
  have b: "getProp ?h (JRef 0) (Name ''message'') = Inr (JStr ''metadata'')"
    by (simp add: lookup_def)
  have c: "getProp ?h (JRef 0) (Name ''update_type'') = Inr JUndefined"
    by (simp add: lookup_def)
  have d: "getProp ?h (JRef 0) (Name ''streams'') = Inr JUndefined"
    by (simp add: lookup_def)
  have e: "getProp ?h (JRef 0) (Name ''version'') = Inr JUndefined"
    by (simp add: lookup_def)
  have f: "JStr ''done'' = JStr ''done'' \<and> JStr ''metadata'' = JStr ''metadata''
      \<and> \<not> (truthy JUndefined \<and> JUndefined = JStr ''2.0.0'')"
    by simp
  from discriminator_priority [OF a b c d e, of env0 JUndefined] f
  have "parseStreamLogData env0 ?h (JRef 0) JUndefined
      = Inr (JRef (length ?h),
             ?h @ [Obj (put (Name ''type'') (DONE (LOG_STREAM_MESSAGE env0))
                         (own_props ?h (JRef 0)))])"
    by blast
  then show ?thesis
    by (simp add: lookup_def env0_def)
qed

text \<open>
  A message with type \<^verbatim>\<open>done\<close> and message \<^verbatim>\<open>metadata\<close> that also has a
  \<^verbatim>\<open>streams\<close> field and version \<^verbatim>\<open>2.0.0\<close>: the fixup overwrites its type, and the
  result carries the METADATA tag, not the DONE tag.
\<close>

theorem type_done_with_streams_counterexample:
  "getProp [Obj [(Name ''type'', JStr ''done''), (Name ''message'', JStr ''metadata''),
                 (Name ''streams'', JRef 1), (Name ''version'', JStr ''2.0.0'')], Obj []]
       (JRef 0) (Name ''type'') = Inr (JStr ''done'')
   \<and> getProp [Obj [(Name ''type'', JStr ''done''), (Name ''message'', JStr ''metadata''),
                   (Name ''streams'', JRef 1), (Name ''version'', JStr ''2.0.0'')], Obj []]
       (JRef 0) (Name ''message'') = Inr (JStr ''metadata'')
   \<and> parseStreamLogData env0
       [Obj [(Name ''type'', JStr ''done''), (Name ''message'', JStr ''metadata''),
             (Name ''streams'', JRef 1), (Name ''version'', JStr ''2.0.0'')], Obj []]
       (JRef 0) JUndefined
     = Inr (JRef 2,
            [Obj [(Name ''type'', JStr ''metadata''), (Name ''message'', JStr ''metadata''),
                  (Name ''streams'', JRef 1), (Name ''version'', JStr ''2.0.0'')], Obj [],
             Obj [(Name ''type'', JStr ''METADATA''), (Name ''message'', JStr ''metadata''),
                  (Name ''streams'', JRef 1), (Name ''version'', JStr ''2.0.0'')]])
   \<and> parseStreamLogData env0
       [Obj [(Name ''type'', JStr ''done''), (Name ''message'', JStr ''metadata''),
             (Name ''streams'', JRef 1), (Name ''version'', JStr ''2.0.0'')], Obj []]
       (JRef 0) JUndefined
     \<noteq> Inr (JRef 2,
            [Obj [(Name ''type'', JStr ''done''), (Name ''message'', JStr ''metadata''),
                  (Name ''streams'', JRef 1), (Name ''version'', JStr ''2.0.0'')], Obj [],
             Obj [(Name ''type'', JStr ''DONE''), (Name ''message'', JStr ''metadata''),
                  (Name ''streams'', JRef 1), (Name ''version'', JStr ''2.0.0'')]])"
  by (simp add: checkV2MetadataFields_def parseStreamLogData_def discriminator_def
      dispatch_def setProp_def lookup_def env0_def)

section \<open>The error record\<close>

text \<open>
  Claim C7. When the discriminant of a message is \<^verbatim>\<open>error\<close>, \<open>parseStreamLogData\<close>
  returns a fresh object whose \<^verbatim>\<open>message\<close> field is \<^verbatim>\<open>Stream server error\<close>, whose
  \<^verbatim>\<open>type\<close> field is the ERROR tag, and whose every other field reads as the same field
  of the message; it has the keys of the message and these two, and the message itself
  and the rest of the store are unchanged.
\<close>

theorem error_shallow_copy:
  assumes "checkV2MetadataFields h v = Inr h'"
    and "discriminator h' v = Inr (JStr ''error'')"
  shows "\<exists>a ps r. v = JRef a \<and> lookup h a = Some (Obj ps)
           \<and> parseStreamLogData env h v opts = Inr (JRef (length h), h @ [Obj r])
           \<and> getProp (h @ [Obj r]) (JRef (length h)) (Name ''message'')
                = Inr (JStr ''Stream server error'')
           \<and> getProp (h @ [Obj r]) (JRef (length h)) (Name ''type'')
                = Inr (ERROR (LOG_STREAM_MESSAGE env))
           \<and> (\<forall>k. k \<noteq> Name ''message'' \<and> k \<noteq> Name ''type'' \<longrightarrow>
                  getProp (h @ [Obj r]) (JRef (length h)) k = getProp h v k)
           \<and> set (map fst r) = set (map fst ps) \<union> {Name ''message'', Name ''type''}
           \<and> a \<noteq> length h"
proof -
  have hh: "h' = h"
    using fixup_not_metadata [OF assms] by simp
  from discriminator_truthy [OF assms(2)] hh obtain a ps where
    v: "v = JRef a" "lookup h a = Some (Obj ps)" by auto
  let ?r = "put (Name ''type'') (ERROR (LOG_STREAM_MESSAGE env))
              (put (Name ''message'') (JStr ''Stream server error'') ps)"
  have p: "parseStreamLogData env h v opts = Inr (JRef (length h), h @ [Obj ?r])"
    using assms hh v by (simp add: parseStreamLogData_def dispatch_def)
  have m: "getProp (h @ [Obj ?r]) (JRef (length h)) (Name ''message'')
      = Inr (JStr ''Stream server error'')"
    by (simp add: lookup_append_new map_of_put)
  have t: "getProp (h @ [Obj ?r]) (JRef (length h)) (Name ''type'')
      = Inr (ERROR (LOG_STREAM_MESSAGE env))"
    by (simp add: lookup_append_new map_of_put)
  have o: "getProp (h @ [Obj ?r]) (JRef (length h)) k = getProp h v k"
    if "k \<noteq> Name ''message'' \<and> k \<noteq> Name ''type''" for k
    using that v by (simp add: lookup_append_new map_of_put)
  have k: "set (map fst ?r) = set (map fst ps) \<union> {Name ''message'', Name ''type''}"
    by (auto simp: keys_put)
  have n: "a \<noteq> length h"
    using v(2) by (auto simp: lookup_def split: if_splits)
  from v p m t o k n show ?thesis by blast
qed

theorem error_shallow_copy_witness:
  "parseStreamLogData env0
       [Obj [(Name ''type'', JStr ''error''), (Name ''message'', JStr ''disk full''),
             (Name ''code'', JNum 7)]] (JRef 0) JUndefined
     = Inr (JRef 1,
            [Obj [(Name ''type'', JStr ''error''), (Name ''message'', JStr ''disk full''),
                  (Name ''code'', JNum 7)],
             Obj [(Name ''type'', JStr ''ERROR''), (Name ''message'', JStr ''Stream server error''),
                  (Name ''code'', JNum 7)]])"
proof -
  let ?h = "[Obj [(Name ''type'', JStr ''error''), (Name ''message'', JStr ''disk full''),
                  (Name ''code'', JNum 7)]]"
  have a: "checkV2MetadataFields ?h (JRef 0) = Inr ?h"
    by (simp add: checkV2MetadataFields_def lookup_def)
  have b: "discriminator ?h (JRef 0) = Inr (JStr ''error'')"
    by (simp add: discriminator_def lookup_def)
  from error_shallow_copy [OF a b, of env0 JUndefined] obtain r where
    "parseStreamLogData env0 ?h (JRef 0) JUndefined = Inr (JRef (length ?h), ?h @ [Obj r])"
    by blast
  then show ?thesis
    by (simp add: parseStreamLogData_def a b dispatch_def lookup_def env0_def)
qed

section \<open>Callbacks\<close>

lemma tryBlock_cases:
  assumes "\<forall>r. onResult r = None"
  shows "(foreignEnvelope env h m \<and> tryBlock env h m onResult opts = ([], None))
       \<or> (\<not> foreignEnvelope env h m \<and> (\<exists>r. tryBlock env h m onResult opts = ([OnResult r], None)))
       \<or> (\<not> foreignEnvelope env h m \<and> (\<exists>e. tryBlock env h m onResult opts = ([], Some e)))"
  using assms
  by (auto simp: tryBlock_def foreignEnvelope_def split: sum.splits prod.splits if_splits)

text \<open>
  Claim C2, as the code has it. Let \<^verbatim>\<open>onResult\<close> be a callback that returns normally.
  For a message that is not a Blob, \<open>parseStreamDataMessage\<close> makes no call when the
  message is a foreign envelope; otherwise it makes exactly one call: \<^verbatim>\<open>onResult\<close> with
  the result when the try block ends normally, \<^verbatim>\<open>onError\<close> with the exception when the
  block raises one.
\<close>

theorem exactly_one_callback:
  assumes "\<forall>r. onResult r = None"
  shows "(foreignEnvelope env h m \<longrightarrow>
            parseStreamDataMessage env h (Message m) onResult onError opts = ([], None))
       \<and> (\<not> foreignEnvelope env h m \<longrightarrow>
            (\<exists>r. tryBlock env h m onResult opts = ([OnResult r], None)
                \<and> parseStreamDataMessage env h (Message m) onResult onError opts
                     = ([OnResult r], None))
          \<or> (\<exists>e. tryBlock env h m onResult opts = ([], Some e)
                \<and> parseStreamDataMessage env h (Message m) onResult onError opts
                     = ([OnError e], onError e)))"
  using tryBlock_cases [OF assms, of env h m opts]
  by (auto simp: parseStreamDataMessage_def)

lemma foreign_example:
  "foreignEnvelope env0 [Obj [(Name ''type'', JStr ''other/x''), (Name ''data'', JRef 1)], Obj []]
     (JRef 0)"
  by (simp add: foreignEnvelope_def decodeMessage_def isBinary_def instanceof_Uint8Array_def
      isEnvelope_def unpackEnvelope_def forin_keys_def setProp_def lookup_def env0_def)

theorem exactly_one_callback_witness:
  "(\<forall>r. (\<lambda>r::jsval. None::error option) r = None)
   \<and> parseStreamDataMessage env0
        [Obj [(Name ''type'', JStr ''other/x''), (Name ''data'', JRef 1)], Obj []]
        (Message (JRef 0)) (\<lambda>r. None) (\<lambda>e. None) JUndefined = ([], None)
   \<and> (\<exists>ev. parseStreamDataMessage env0 [Obj [(Name ''type'', JStr ''ack'')]]
        (Message (JRef 0)) (\<lambda>r. None) (\<lambda>e. None) JUndefined = ([ev], None))"
proof -
  have a: "\<forall>r. (\<lambda>r::jsval. None::error option) r = None" by simp
  from exactly_one_callback [OF a] foreign_example
  have "parseStreamDataMessage env0
        [Obj [(Name ''type'', JStr ''other/x''), (Name ''data'', JRef 1)], Obj []]
        (Message (JRef 0)) (\<lambda>r. None) (\<lambda>e. None) JUndefined = ([], None)"
    by blast
  moreover have "\<not> foreignEnvelope env0 [Obj [(Name ''type'', JStr ''ack'')]] (JRef 0)"
    by (simp add: foreignEnvelope_def decodeMessage_def isBinary_def instanceof_Uint8Array_def
        isEnvelope_def forin_keys_def setProp_def lookup_def env0_def)
  with exactly_one_callback [OF a, where env = env0 and h = "[Obj [(Name ''type'', JStr ''ack'')]]"
      and m = "JRef 0" and opts = JUndefined and onError = "\<lambda>e. None"]
  have "\<exists>ev. parseStreamDataMessage env0 [Obj [(Name ''type'', JStr ''ack'')]]
        (Message (JRef 0)) (\<lambda>r. None) (\<lambda>e. None) JUndefined = ([ev], None)"
    by auto
  ultimately show ?thesis using a by blast
qed

text \<open>
  \<^verbatim>\<open>onResult(result)\<close> is inside the try block: when the callback throws, the catch
  clause calls \<^verbatim>\<open>onError\<close> as well, and both callbacks have been called.
\<close>

theorem throwing_onResult_counterexample:
  "parseStreamDataMessage env0 [Obj [(Name ''type'', JStr ''ack'')]] (Message (JRef 0))
       (\<lambda>r. Some (Thrown ''consumer'')) (\<lambda>e. None) JUndefined
     = ([OnResult JNull, OnError (Thrown ''consumer'')], None)"
  by (simp add: parseStreamDataMessage_def tryBlock_def decodeMessage_def isBinary_def
      instanceof_Uint8Array_def isEnvelope_def forin_keys_def setProp_def lookup_def
      parseStreamLogData_def checkV2MetadataFields_def discriminator_def dispatch_def env0_def)

section \<open>Falsy payloads\<close>

text \<open>
  Claim C10, as the code has it. For the payloads \<^verbatim>\<open>null\<close> and \<^verbatim>\<open>undefined\<close>,
  \<open>decode\<close> returns the payload unchanged, the envelope check raises a \<^verbatim>\<open>TypeError\<close>,
  and \<open>parseStreamDataMessage\<close> calls \<^verbatim>\<open>onError\<close> once with it and never \<^verbatim>\<open>onResult\<close>.
\<close>

theorem nullish_payload:
  assumes "m = JNull \<or> m = JUndefined"
  shows "decode env h m True = Inr (m, h)
       \<and> isEnvelope h m = Inl TypeError
       \<and> parseStreamDataMessage env h (Message m) onResult onError opts
            = ([OnError TypeError], onError TypeError)"
  using assms
  by (auto simp: parseStreamDataMessage_def tryBlock_def decodeMessage_def isEnvelope_def)

theorem nullish_payload_witness:
  "decode env0 [] JNull True = Inr (JNull, [])
   \<and> parseStreamDataMessage env0 [] (Message JNull) (\<lambda>r. None) (\<lambda>e. None) JUndefined
        = ([OnError TypeError], None)"
proof -
  have "JNull = JNull \<or> JNull = JUndefined" by simp
  from nullish_payload [OF this, of env0 "[]" "\<lambda>r. None" "\<lambda>e. None" JUndefined]
  show ?thesis by simp
qed

text \<open>
  The payload \<^verbatim>\<open>false\<close> is falsy and not a string, but reading a property of it gives
  \<^verbatim>\<open>undefined\<close>: the envelope check raises nothing and the payload reaches the timeslice
  decoder, whose result goes to \<^verbatim>\<open>onResult\<close>.
\<close>

theorem falsy_payload_counterexample:
  "\<not> truthy (JBool False)
   \<and> typeof (JBool False) \<noteq> ''string''
   \<and> isEnvelope [] (JBool False) = Inr JUndefined
   \<and> parseStreamDataMessage env0 [] (Message (JBool False)) (\<lambda>r. None) (\<lambda>e. None) JUndefined
        = ([OnResult (JStr ''v2'')], None)"
  by (simp add: parseStreamDataMessage_def tryBlock_def decodeMessage_def isEnvelope_def
      parseStreamLogData_def checkV2MetadataFields_def discriminator_def dispatch_def
      parseTimesliceData_def env0_def)

section \<open>Decoding one value\<close>

lemma decode_flat_plain: "\<not> encoded env h v \<Longrightarrow> decode env h v False = Inr (v, h)"
  by (auto simp: encoded_def)

lemma decode_flat_extends:
  assumes "decode env h v False = Inr (r, h')"
  shows "\<exists>new. h' = h @ new"
proof (cases "encoded env h v")
  case False
  from decode_flat_plain [OF False] assms show ?thesis by simp
next
  case True
  with assms show ?thesis
    by (auto simp: encoded_def parseBinary_def split: if_splits sum.splits jsval.splits option.splits)
qed

lemma struct_obj_set: "struct (obj_set ob k r) = struct ob"
  by (cases "(ob, k, r)" rule: obj_set.cases) auto

lemma obj_get_obj_set_other: "k' \<noteq> k \<Longrightarrow> obj_get (obj_set ob k r) k' = obj_get ob k'"
  by (cases "(ob, k, r)" rule: obj_set.cases; cases k')
     (auto simp: map_of_put nth_append nth_list_update)

lemma obj_get_obj_set_same: "struct ob \<Longrightarrow> obj_get ob k = x \<Longrightarrow> obj_get (obj_set ob k x) k = x"
  by (cases "(ob, k, x)" rule: obj_set.cases) (auto simp: map_of_put nth_append)

lemma encoded_primitive: "(\<And>b. v \<noteq> JRef b) \<Longrightarrow> \<not> encoded env h v"
  by (cases v) (auto simp: encoded_def isBinary_def instanceof_Uint8Array_def)

lemma encoded_lookup:
  "lookup h' b = lookup h b \<Longrightarrow> encoded env h' (JRef b) = encoded env h (JRef b)"
  by (simp add: encoded_def isBinary_def instanceof_Uint8Array_def bytes_of_def)

lemma encoded_struct: "lookup h b = Some ob \<Longrightarrow> struct ob \<Longrightarrow> \<not> encoded env h (JRef b)"
  by (cases ob) (auto simp: encoded_def isBinary_def instanceof_Uint8Array_def)

lemma encoded_iff: "encoded env h x \<longleftrightarrow> isBinary env h x \<or> (instanceof_Uint8Array h x \<and> isJSON (bytes_of h x))"
  by (simp add: encoded_def)

section \<open>The loop over the fields\<close>

declare decode.simps [simp del]

lemma decode_keys_step:
  assumes "decode_keys env h a (k # ks) = Inr h'" and "lookup h a = Some ob"
  obtains r new where "decode env h (obj_get ob k) False = Inr (r, h @ new)"
    and "decode_keys env (setProp (h @ new) a k r) a ks = Inr h'"
    and "lookup (setProp (h @ new) a k r) a = Some (obj_set ob k r)"
proof -
  from assms obtain r h1 where d: "decode env h (obj_get ob k) False = Inr (r, h1)"
    and rest: "decode_keys env (setProp h1 a k r) a ks = Inr h'"
    by (auto split: sum.splits)
  from decode_flat_extends [OF d] obtain new where h1: "h1 = h @ new" by blast
  from assms(2) have "a < length h" by (auto simp: lookup_def split: if_splits)
  with assms(2) have "lookup (h @ new) a = Some ob" by (simp add: lookup_append_old)
  then have "lookup (setProp (h @ new) a k r) a = Some (obj_set ob k r)"
    by (rule lookup_setProp_same)
  with d rest h1 that show thesis by blast
qed

lemma decode_keys_others:
  assumes "decode_keys env h a ks = Inr h'" and "lookup h a = Some ob"
  shows "length h \<le> length h' \<and> (\<forall>b. b \<noteq> a \<and> b < length h \<longrightarrow> lookup h' b = lookup h b)
       \<and> (\<exists>ob'. lookup h' a = Some ob' \<and> struct ob' = struct ob)"
  using assms
proof (induction ks arbitrary: h ob)
  case Nil
  then show ?case by simp
next
  case (Cons k ks)
  from decode_keys_step [OF Cons.prems] obtain r new where
    rest: "decode_keys env (setProp (h @ new) a k r) a ks = Inr h'"
    and l: "lookup (setProp (h @ new) a k r) a = Some (obj_set ob k r)"
    by blast
  from Cons.IH [OF rest l] have
    len: "length (setProp (h @ new) a k r) \<le> length h'"
    and oth: "\<forall>b. b \<noteq> a \<and> b < length (setProp (h @ new) a k r) \<longrightarrow>
                lookup h' b = lookup (setProp (h @ new) a k r) b"
    and obj: "\<exists>ob'. lookup h' a = Some ob' \<and> struct ob' = struct (obj_set ob k r)"
    by blast+
  from len have "length h \<le> length h'" by (simp add: length_setProp)
  moreover have "lookup h' b = lookup h b" if "b \<noteq> a \<and> b < length h" for b
    using that oth by (simp add: length_setProp lookup_setProp_other lookup_append_old)
  moreover from obj have "\<exists>ob'. lookup h' a = Some ob' \<and> struct ob' = struct ob"
    by (simp add: struct_obj_set)
  ultimately show ?case by blast
qed

lemma decode_keys_untouched:
  assumes "decode_keys env h a ks = Inr h'" and "lookup h a = Some ob" and "k \<notin> set ks"
  shows "getProp h' (JRef a) k = Inr (obj_get ob k)"
  using assms
proof (induction ks arbitrary: h ob)
  case Nil
  then show ?case by simp
next
  case (Cons k' ks)
  from decode_keys_step [OF Cons.prems(1,2)] obtain r new where
    rest: "decode_keys env (setProp (h @ new) a k' r) a ks = Inr h'"
    and l: "lookup (setProp (h @ new) a k' r) a = Some (obj_set ob k' r)"
    by blast
  from Cons.prems(3) have "k \<noteq> k'" "k \<notin> set ks" by auto
  with Cons.IH [OF rest l] show ?case by (simp add: obj_get_obj_set_other)
qed

lemma encoded_stable:
  assumes "valid h x" and "lookup h a = Some ob" and "struct ob"
    and "lookup h2 a = Some ob2" and "struct ob2"
    and "\<forall>b. b \<noteq> a \<and> b < length h \<longrightarrow> lookup h2 b = lookup h b"
  shows "encoded env h2 x = encoded env h x"
proof (cases x)
  case (JRef b)
  show ?thesis
  proof (cases "b = a")
    case True
    have "\<not> encoded env h (JRef a)" by (rule encoded_struct [OF assms(2,3)])
    moreover have "\<not> encoded env h2 (JRef a)" by (rule encoded_struct [OF assms(4,5)])
    ultimately show ?thesis using JRef True by simp
  next
    case False
    with JRef assms(1,6) have "lookup h2 b = lookup h b" by (simp add: valid_def)
    from encoded_lookup [OF this] JRef show ?thesis by simp
  qed
qed (simp_all add: encoded_primitive)

lemma decode_keys_kept:
  assumes "decode_keys env h a ks = Inr h'" and "lookup h a = Some ob" and "struct ob"
    and "valid h (obj_get ob k)" and "\<not> encoded env h (obj_get ob k)"
  shows "getProp h' (JRef a) k = Inr (obj_get ob k)"
  using assms
proof (induction ks arbitrary: h ob)
  case Nil
  then show ?case by simp
next
  case (Cons k' ks)
  let ?x = "obj_get ob k"
  from decode_keys_step [OF Cons.prems(1,2)] obtain r new where
    d: "decode env h (obj_get ob k') False = Inr (r, h @ new)"
    and rest: "decode_keys env (setProp (h @ new) a k' r) a ks = Inr h'"
    and l: "lookup (setProp (h @ new) a k' r) a = Some (obj_set ob k' r)"
    by blast
  let ?h2 = "setProp (h @ new) a k' r"
  have same: "obj_get (obj_set ob k' r) k = ?x"
  proof (cases "k' = k")
    case True
    with d decode_flat_plain [OF Cons.prems(5)] have "r = ?x" by simp
    with True Cons.prems(3) show ?thesis by (simp add: obj_get_obj_set_same)
  next
    case False
    then show ?thesis by (simp add: obj_get_obj_set_other)
  qed
  have s2: "struct (obj_set ob k' r)"
    using Cons.prems(3) by (simp add: struct_obj_set)
  have v2: "valid ?h2 ?x"
    using Cons.prems(4) by (auto simp: valid_def length_setProp split: jsval.splits)
  have "\<forall>b. b \<noteq> a \<and> b < length h \<longrightarrow> lookup ?h2 b = lookup h b"
    by (simp add: lookup_setProp_other lookup_append_old)
  from encoded_stable [OF Cons.prems(4,2,3) l s2 this] Cons.prems(5)
  have e2: "\<not> encoded env ?h2 ?x" by simp
  from Cons.IH [OF rest l s2] same v2 e2 show ?case by simp
qed

lemma decode_struct:
  assumes "lookup h a = Some ob" and "struct ob"
  shows "decode env h (JRef a) True =
           (case decode_keys env h a (own_keys ob) of
              Inl e \<Rightarrow> Inl e
            | Inr h' \<Rightarrow> Inr (JRef a, h'))"
proof -
  from encoded_struct [OF assms] have "\<not> encoded env h (JRef a)" .
  then show ?thesis
    using assms(1) by (auto simp: decode.simps [of env h "JRef a" True] encoded_def forin_keys_def)
qed

lemma obj_get_obj_set_defined:
  "struct ob \<Longrightarrow> obj_get ob k \<noteq> JUndefined \<Longrightarrow> obj_get (obj_set ob k r) k = r"
  by (cases "(ob, k, r)" rule: obj_set.cases) (auto simp: map_of_put nth_append)

lemma decode_flat_json:
  assumes "lookup h b = Some (Uint8Array bs)" and "isJSON bs"
    and "\<not> isBinaryXVIZ env (Uint8Array bs)"
  shows "decode env h (JRef b) rec =
           (case jsonParse env (length h) (textDecode env bs) of
              Inl e \<Rightarrow> Inl e
            | Inr (r, new) \<Rightarrow> Inr (r, h @ new))"
  using assms
  by (simp add: decode.simps [of env h "JRef b" rec] isBinary_def instanceof_Uint8Array_def
      bytes_of_def)

lemma decode_keys_decoded:
  assumes "decode_keys env h a ks = Inr h'" and "lookup h a = Some ob" and "struct ob"
    and "distinct ks" and "k \<in> set ks"
    and "obj_get ob k = JRef b" and "lookup h b = Some (Uint8Array bs)"
    and "isJSON bs" and "\<not> isBinaryXVIZ env (Uint8Array bs)"
  shows "\<exists>n new x. jsonParse env n (textDecode env bs) = Inr (x, new)
           \<and> getProp h' (JRef a) k = Inr x
           \<and> (\<forall>i<length new. lookup h' (n + i) = Some (new ! i))"
  using assms(1,2,3,4,5,6,7)
proof (induction ks arbitrary: h ob)
  case Nil
  then show ?case by simp
next
  case (Cons k' ks)
  from decode_keys_step [OF Cons.prems(1,2)] obtain r new where
    d: "decode env h (obj_get ob k') False = Inr (r, h @ new)"
    and rest: "decode_keys env (setProp (h @ new) a k' r) a ks = Inr h'"
    and l: "lookup (setProp (h @ new) a k' r) a = Some (obj_set ob k' r)"
    by blast
  let ?h2 = "setProp (h @ new) a k' r"
  from Cons.prems(2) have a: "a < length h" by (auto simp: lookup_def split: if_splits)
  from Cons.prems(7) have b: "b < length h" by (auto simp: lookup_def split: if_splits)
  from Cons.prems(2,3,7) have ba: "b \<noteq> a" by auto
  show ?case
  proof (cases "k' = k")
    case True
    with d Cons.prems(6) have "decode env h (JRef b) False = Inr (r, h @ new)" by simp
    with decode_flat_json [OF Cons.prems(7) assms(8,9), of False]
    have j: "jsonParse env (length h) (textDecode env bs) = Inr (r, new)"
      by (auto split: sum.splits)
    from True Cons.prems(4) have "k \<notin> set ks" by simp
    from decode_keys_untouched [OF rest l this] True Cons.prems(3,6)
    have g: "getProp h' (JRef a) k = Inr r" by (simp add: obj_get_obj_set_defined)
    have "lookup h' (length h + i) = Some (new ! i)" if "i < length new" for i
    proof -
      from decode_keys_others [OF rest l]
      have "\<forall>c. c \<noteq> a \<and> c < length ?h2 \<longrightarrow> lookup h' c = lookup ?h2 c" by blast
      with a that have "lookup h' (length h + i) = lookup ?h2 (length h + i)"
        by (simp add: length_setProp)
      also from a have "\<dots> = lookup (h @ new) (length h + i)"
        by (simp add: lookup_setProp_other)
      also from that have "\<dots> = Some (new ! i)" by (simp add: lookup_def)
      finally show ?thesis .
    qed
    with j g show ?thesis by blast
  next
    case False
    with Cons.prems(5) have in_ks: "k \<in> set ks" by simp
    from Cons.prems(4) have dist: "distinct ks" by simp
    have s2: "struct (obj_set ob k' r)"
      using Cons.prems(3) by (simp add: struct_obj_set)
    from False Cons.prems(6) have g2: "obj_get (obj_set ob k' r) k = JRef b"
      by (simp add: obj_get_obj_set_other)
    from b ba Cons.prems(7) have b2: "lookup ?h2 b = Some (Uint8Array bs)"
      by (simp add: lookup_setProp_other lookup_append_old)
    from Cons.IH [OF rest l s2 dist in_ks g2 b2] show ?thesis .
  qed
qed

lemma decode_flat_binary:
  assumes "lookup h b = Some bo" and "isBinary env h (JRef b)"
  shows "decode env h (JRef b) rec =
           (case parseBinaryXVIZ env (length h) bo of
              Inl e \<Rightarrow> Inl e
            | Inr (r, new) \<Rightarrow> Inr (r, h @ new))"
  using assms by (simp add: decode.simps [of env h "JRef b" rec] parseBinary_def)

lemma isBinary_lookup:
  "lookup h1 b = lookup h b \<Longrightarrow> isBinary env h1 (JRef b) = isBinary env h (JRef b)"
  by (simp add: isBinary_def)

lemma isBinary_not_struct: "lookup h b = Some bo \<Longrightarrow> isBinary env h (JRef b) \<Longrightarrow> \<not> struct bo"
  by (cases bo) (auto simp: isBinary_def)

lemma decode_keys_replaced:
  assumes "decode_keys env h a ks = Inr h'" and "lookup h a = Some ob" and "struct ob"
    and "distinct ks" and "k \<in> set ks"
    and "obj_get ob k = JRef b" and "lookup h b = Some bo" and "\<not> struct bo"
    and F: "\<And>h1. lookup h1 b = Some bo \<Longrightarrow>
              decode env h1 (JRef b) False =
                (case F (length h1) of Inl e \<Rightarrow> Inl e | Inr (r, new) \<Rightarrow> Inr (r, h1 @ new))"
  shows "\<exists>n new x. F n = Inr (x, new) \<and> length h \<le> n \<and> n + length new \<le> length h'
           \<and> getProp h' (JRef a) k = Inr x
           \<and> (\<forall>i<length new. lookup h' (n + i) = Some (new ! i))"
  using assms(1,2,3,4,5,6,7)
proof (induction ks arbitrary: h ob)
  case Nil
  then show ?case by simp
next
  case (Cons k' ks)
  from decode_keys_step [OF Cons.prems(1,2)] obtain r new where
    d: "decode env h (obj_get ob k') False = Inr (r, h @ new)"
    and rest: "decode_keys env (setProp (h @ new) a k' r) a ks = Inr h'"
    and l: "lookup (setProp (h @ new) a k' r) a = Some (obj_set ob k' r)"
    by blast
  let ?h2 = "setProp (h @ new) a k' r"
  from Cons.prems(2) have a: "a < length h" by (auto simp: lookup_def split: if_splits)
  from Cons.prems(7) have b: "b < length h" by (auto simp: lookup_def split: if_splits)
  from Cons.prems(2,3,7) assms(8) have ba: "b \<noteq> a" by auto
  from decode_keys_others [OF rest l]
  have len: "length ?h2 \<le> length h'"
    and oth: "\<forall>c. c \<noteq> a \<and> c < length ?h2 \<longrightarrow> lookup h' c = lookup ?h2 c"
    by blast+
  show ?case
  proof (cases "k' = k")
    case True
    with d Cons.prems(6) have "decode env h (JRef b) False = Inr (r, h @ new)" by simp
    with F [OF Cons.prems(7)] have j: "F (length h) = Inr (r, new)"
      by (auto split: sum.splits)
    from True Cons.prems(4) have "k \<notin> set ks" by simp
    from decode_keys_untouched [OF rest l this] True Cons.prems(3,6)
    have g: "getProp h' (JRef a) k = Inr r" by (simp add: obj_get_obj_set_defined)
    have cells: "lookup h' (length h + i) = Some (new ! i)" if "i < length new" for i
    proof -
      from oth a that have "lookup h' (length h + i) = lookup ?h2 (length h + i)"
        by (simp add: length_setProp)
      also from a have "\<dots> = lookup (h @ new) (length h + i)"
        by (simp add: lookup_setProp_other)
      also from that have "\<dots> = Some (new ! i)" by (simp add: lookup_def)
      finally show ?thesis .
    qed
    from len have "length h + length new \<le> length h'" by (simp add: length_setProp)
    with j g cells show ?thesis by blast
  next
    case False
    with Cons.prems(5) have in_ks: "k \<in> set ks" by simp
    from Cons.prems(4) have dist: "distinct ks" by simp
    have s2: "struct (obj_set ob k' r)"
      using Cons.prems(3) by (simp add: struct_obj_set)
    from False Cons.prems(6) have g2: "obj_get (obj_set ob k' r) k = JRef b"
      by (simp add: obj_get_obj_set_other)
    from b ba Cons.prems(7) have b2: "lookup ?h2 b = Some bo"
      by (simp add: lookup_setProp_other lookup_append_old)
    from Cons.IH [OF rest l s2 dist in_ks g2 b2] obtain n new' x where
      r: "F n = Inr (x, new')" "length ?h2 \<le> n" "n + length new' \<le> length h'"
         "getProp h' (JRef a) k = Inr x" "\<forall>i<length new'. lookup h' (n + i) = Some (new' ! i)"
      by blast
    from r(2) have "length h \<le> n" by (simp add: length_setProp)
    with r show ?thesis by blast
  qed
qed

lemma put_same: "map_of ps k = Some x \<Longrightarrow> put k x ps = ps"
  by (induction ps) (auto split: if_splits)

lemma obj_set_get_id: "k \<in> set (own_keys ob) \<Longrightarrow> obj_set ob k (obj_get ob k) = ob"
proof (cases ob)
  case (Obj ps)
  assume "k \<in> set (own_keys ob)"
  with Obj obtain x where "map_of ps k = Some x"
    by (cases "map_of ps k") (auto simp: map_of_eq_None_iff)
  with Obj show ?thesis by (simp add: put_same)
qed auto

lemma obj_get_field_value:
  "k \<in> set (own_keys ob) \<Longrightarrow> obj_get ob k \<in> set (map snd (obj_props ob))"
proof (cases ob)
  case (Obj ps)
  assume "k \<in> set (own_keys ob)"
  with Obj obtain x where x: "map_of ps k = Some x"
    by (cases "map_of ps k") (auto simp: map_of_eq_None_iff)
  from map_of_SomeD [OF x] have "x \<in> snd ` set ps" by force
  with Obj x show ?thesis by simp
next
  case (Arr vs)
  assume "k \<in> set (own_keys ob)"
  with Arr show ?thesis by auto
next
  case (Uint8Array bs)
  assume "k \<in> set (own_keys ob)"
  with Uint8Array show ?thesis by auto
qed auto

lemma setProp_same: "lookup h a = Some ob \<Longrightarrow> obj_set ob k x = ob \<Longrightarrow> setProp h a k x = h"
  by (auto simp: setProp_def lookup_def split: if_splits)

lemma decode_keys_noop:
  assumes "lookup h a = Some ob"
    and "\<forall>k \<in> set ks. \<not> encoded env h (obj_get ob k) \<and> obj_set ob k (obj_get ob k) = ob"
  shows "decode_keys env h a ks = Inr h"
  using assms(2)
proof (induction ks)
  case Nil
  show ?case by simp
next
  case (Cons k ks)
  from Cons.prems have e: "\<not> encoded env h (obj_get ob k)"
    and s: "obj_set ob k (obj_get ob k) = ob" by simp_all
  from Cons have "decode_keys env h a ks = Inr h" by simp
  with assms(1) decode_flat_plain [OF e] setProp_same [OF assms(1) s] show ?case by simp
qed

section \<open>Decoding on concrete stores\<close>

lemma isJSON_braces: "isJSON [0x7B, 0x7D]"
  by code_simp

lemma isJSON_magic: "\<not> isJSON [0x58, 0x56, 0x49, 0x5A]"
  by code_simp

lemma textDecode_braces: "textDecode env0 [0x7B, 0x7D] = ''{}''"
proof -
  have "map (\<lambda>b. char_of (unat b)) [0x7B, 0x7D :: 8 word] = ''{}''" by code_simp
  then show ?thesis by (simp add: env0_def)
qed

lemma jsonParse_braces: "jsonParse env0 n ''{}'' = Inr (JRef n, [Obj []])"
  by (simp add: env0_def)

lemma isBinaryXVIZ_env0:
  "isBinaryXVIZ env0 ob = (case ob of ArrayBuffer bs \<Rightarrow> take 4 bs = [0x58, 0x56, 0x49, 0x5A] | _ \<Rightarrow> False)"
  by (simp add: env0_def)

lemma decode_example:
  "decode env0 [Obj [(Name ''id'', JNum 7), (Name ''points'', JRef 1)], Uint8Array [0x7B, 0x7D]]
       (JRef 0) True
     = Inr (JRef 0,
            [Obj [(Name ''id'', JNum 7), (Name ''points'', JRef 2)], Uint8Array [0x7B, 0x7D],
             Obj []])"
  by (simp add: decode.simps isBinary_def instanceof_Uint8Array_def bytes_of_def forin_keys_def
      lookup_def setProp_def isJSON_braces textDecode_braces jsonParse_braces isBinaryXVIZ_env0)

lemma decode_binary_example:
  "decode env0 [Obj [(Name ''a'', JRef 1)], ArrayBuffer [0x58, 0x56, 0x49, 0x5A, 0, 0, 0, 0]]
       (JRef 0) True
     = Inr (JRef 0,
            [Obj [(Name ''a'', JRef 2)], ArrayBuffer [0x58, 0x56, 0x49, 0x5A, 0, 0, 0, 0],
             Obj []])"
  by (simp add: decode.simps isBinary_def parseBinary_def instanceof_Uint8Array_def bytes_of_def
      forin_keys_def lookup_def setProp_def env0_def)

lemma decode_two_levels_example:
  "decode env0
       [Obj [(Name ''top'', JRef 1), (Name ''frame'', JRef 2)], Uint8Array [0x7B, 0x7D],
        Obj [(Name ''points'', JRef 3)], Uint8Array [0x7B, 0x7D]] (JRef 0) True
     = Inr (JRef 0,
            [Obj [(Name ''top'', JRef 4), (Name ''frame'', JRef 2)], Uint8Array [0x7B, 0x7D],
             Obj [(Name ''points'', JRef 3)], Uint8Array [0x7B, 0x7D], Obj []])"
  by (simp add: decode.simps isBinary_def instanceof_Uint8Array_def bytes_of_def forin_keys_def
      lookup_def setProp_def isJSON_braces textDecode_braces jsonParse_braces isBinaryXVIZ_env0)

section \<open>Decoding in place\<close>

text \<open>
  Claim C5, as the code has it. For a payload that is a structural object, \<open>decode\<close>
  returns the payload itself, the same reference, after working on it in place. A field
  whose value is valid and not encoded reads as before, and every other object of the
  store is as before. When the keys of the payload are distinct, a field holding a
  \<^verbatim>\<open>Uint8Array\<close> with JSON (and no binary signature) holds afterwards the value
  \<^verbatim>\<open>JSON.parse\<close> gave for its text, and a field holding a binary-protocol buffer holds
  the value the binary codec gave for it; the objects of that value are in the store,
  above the objects that were there before.
\<close>

theorem decode_in_place:
  assumes "lookup h a = Some ob" and "struct ob"
    and "decode env h (JRef a) True = Inr (r, h')"
  shows "r = JRef a
       \<and> (\<forall>k. valid h (obj_get ob k) \<and> \<not> encoded env h (obj_get ob k) \<longrightarrow>
              getProp h' (JRef a) k = Inr (obj_get ob k))
       \<and> (\<forall>b. b \<noteq> a \<and> b < length h \<longrightarrow> lookup h' b = lookup h b)
       \<and> (distinct (own_keys ob) \<longrightarrow>
            (\<forall>k b bs. k \<in> set (own_keys ob) \<and> obj_get ob k = JRef b
                 \<and> lookup h b = Some (Uint8Array bs) \<and> isJSON bs
                 \<and> \<not> isBinaryXVIZ env (Uint8Array bs) \<longrightarrow>
               (\<exists>n new x. jsonParse env n (textDecode env bs) = Inr (x, new)
                  \<and> length h \<le> n \<and> n + length new \<le> length h'
                  \<and> getProp h' (JRef a) k = Inr x
                  \<and> (\<forall>i<length new. lookup h' (n + i) = Some (new ! i))))
          \<and> (\<forall>k b bo. k \<in> set (own_keys ob) \<and> obj_get ob k = JRef b
                 \<and> lookup h b = Some bo \<and> isBinary env h (JRef b) \<longrightarrow>
               (\<exists>n new x. parseBinaryXVIZ env n bo = Inr (x, new)
                  \<and> length h \<le> n \<and> n + length new \<le> length h'
                  \<and> getProp h' (JRef a) k = Inr x
                  \<and> (\<forall>i<length new. lookup h' (n + i) = Some (new ! i)))))"
proof -
  from assms(3) decode_struct [OF assms(1,2), of env]
  have r: "r = JRef a" and ks: "decode_keys env h a (own_keys ob) = Inr h'"
    by (auto split: sum.splits)
  have kept: "getProp h' (JRef a) k = Inr (obj_get ob k)"
    if "valid h (obj_get ob k) \<and> \<not> encoded env h (obj_get ob k)" for k
    using decode_keys_kept [OF ks assms(1,2)] that by blast
  from decode_keys_others [OF ks assms(1)]
  have others: "\<forall>b. b \<noteq> a \<and> b < length h \<longrightarrow> lookup h' b = lookup h b" by blast
  have json: "\<exists>n new x. jsonParse env n (textDecode env bs) = Inr (x, new)
      \<and> length h \<le> n \<and> n + length new \<le> length h'
      \<and> getProp h' (JRef a) k = Inr x
      \<and> (\<forall>i<length new. lookup h' (n + i) = Some (new ! i))"
    if dist: "distinct (own_keys ob)"
      and f: "k \<in> set (own_keys ob) \<and> obj_get ob k = JRef b
        \<and> lookup h b = Some (Uint8Array bs) \<and> isJSON bs
        \<and> \<not> isBinaryXVIZ env (Uint8Array bs)" for k b bs
  proof -
    from f have k: "k \<in> set (own_keys ob)" and g: "obj_get ob k = JRef b"
      and l: "lookup h b = Some (Uint8Array bs)" and j: "isJSON bs"
      and nb: "\<not> isBinaryXVIZ env (Uint8Array bs)" by blast+
    have ns: "\<not> struct (Uint8Array bs)" by simp
    show ?thesis
      by (rule decode_keys_replaced [OF ks assms(1,2) dist k g l ns,
            where F = "\<lambda>n. jsonParse env n (textDecode env bs)"])
         (rule decode_flat_json [OF _ j nb])
  qed
  have binary: "\<exists>n new x. parseBinaryXVIZ env n bo = Inr (x, new)
      \<and> length h \<le> n \<and> n + length new \<le> length h'
      \<and> getProp h' (JRef a) k = Inr x
      \<and> (\<forall>i<length new. lookup h' (n + i) = Some (new ! i))"
    if dist: "distinct (own_keys ob)"
      and f: "k \<in> set (own_keys ob) \<and> obj_get ob k = JRef b
        \<and> lookup h b = Some bo \<and> isBinary env h (JRef b)" for k b bo
  proof -
    from f have k: "k \<in> set (own_keys ob)" and g: "obj_get ob k = JRef b"
      and l: "lookup h b = Some bo" and ib: "isBinary env h (JRef b)" by blast+
    from isBinary_not_struct [OF l ib] have ns: "\<not> struct bo" .
    have F: "decode env h1 (JRef b) False =
        (case parseBinaryXVIZ env (length h1) bo of
           Inl e \<Rightarrow> Inl e
         | Inr (r, new) \<Rightarrow> Inr (r, h1 @ new))"
      if l1: "lookup h1 b = Some bo" for h1
    proof -
      from l l1 have "lookup h1 b = lookup h b" by simp
      from isBinary_lookup [OF this] ib have "isBinary env h1 (JRef b)" by simp
      from decode_flat_binary [OF l1 this] show ?thesis .
    qed
    show ?thesis
      by (rule decode_keys_replaced [OF ks assms(1,2) dist k g l ns,
            where F = "\<lambda>n. parseBinaryXVIZ env n bo"])
         (rule F)
  qed
  from r kept others json binary show ?thesis by blast
qed

theorem decode_in_place_witness:
  "decode env0 [Obj [(Name ''id'', JNum 7), (Name ''points'', JRef 1)], Uint8Array [0x7B, 0x7D]]
       (JRef 0) True
     = Inr (JRef 0,
            [Obj [(Name ''id'', JNum 7), (Name ''points'', JRef 2)], Uint8Array [0x7B, 0x7D],
             Obj []])
   \<and> getProp [Obj [(Name ''id'', JNum 7), (Name ''points'', JRef 2)], Uint8Array [0x7B, 0x7D],
               Obj []] (JRef 0) (Name ''id'') = Inr (JNum 7)
   \<and> lookup [Obj [(Name ''id'', JNum 7), (Name ''points'', JRef 2)], Uint8Array [0x7B, 0x7D],
              Obj []] 1 = Some (Uint8Array [0x7B, 0x7D])
   \<and> (\<exists>n new x. jsonParse env0 n (textDecode env0 [0x7B, 0x7D]) = Inr (x, new)
        \<and> getProp [Obj [(Name ''id'', JNum 7), (Name ''points'', JRef 2)],
                    Uint8Array [0x7B, 0x7D], Obj []] (JRef 0) (Name ''points'') = Inr x)
   \<and> (\<exists>n new x.
          parseBinaryXVIZ env0 n (ArrayBuffer [0x58, 0x56, 0x49, 0x5A, 0, 0, 0, 0]) = Inr (x, new)
        \<and> getProp [Obj [(Name ''a'', JRef 2)], ArrayBuffer [0x58, 0x56, 0x49, 0x5A, 0, 0, 0, 0],
                    Obj []] (JRef 0) (Name ''a'') = Inr x)"
proof -
  let ?h = "[Obj [(Name ''id'', JNum 7), (Name ''points'', JRef 1)], Uint8Array [0x7B, 0x7D]]"
  let ?ob = "Obj [(Name ''id'', JNum 7), (Name ''points'', JRef 1)]"
  let ?h' = "[Obj [(Name ''id'', JNum 7), (Name ''points'', JRef 2)], Uint8Array [0x7B, 0x7D],
              Obj []]"
  have l: "lookup ?h 0 = Some ?ob" by (simp add: lookup_def)
  have s: "struct ?ob" by simp
  have v: "valid ?h (obj_get ?ob (Name ''id'')) \<and> \<not> encoded env0 ?h (obj_get ?ob (Name ''id''))"
    by (simp add: valid_def encoded_primitive)
  have o: "(1::nat) \<noteq> 0 \<and> 1 < length ?h" by simp
  have d: "distinct (own_keys ?ob)" by simp
  have p: "Name ''points'' \<in> set (own_keys ?ob) \<and> obj_get ?ob (Name ''points'') = JRef 1
      \<and> lookup ?h 1 = Some (Uint8Array [0x7B, 0x7D]) \<and> isJSON [0x7B, 0x7D]
      \<and> \<not> isBinaryXVIZ env0 (Uint8Array [0x7B, 0x7D])"
    by (simp add: lookup_def isJSON_braces isBinaryXVIZ_env0)
  note inst = decode_in_place [OF l s decode_example]
  from inst v o
  have "getProp ?h' (JRef 0) (Name ''id'') = Inr (obj_get ?ob (Name ''id''))"
    and "lookup ?h' 1 = lookup ?h 1"
    by blast+
  then have 1: "getProp ?h' (JRef 0) (Name ''id'') = Inr (JNum 7)"
    and 2: "lookup ?h' 1 = Some (Uint8Array [0x7B, 0x7D])"
    by (simp_all add: lookup_def)
  from inst d p
  have 3: "\<exists>n new x. jsonParse env0 n (textDecode env0 [0x7B, 0x7D]) = Inr (x, new)
      \<and> getProp ?h' (JRef 0) (Name ''points'') = Inr x"
    by blast
  let ?g = "[Obj [(Name ''a'', JRef 1)], ArrayBuffer [0x58, 0x56, 0x49, 0x5A, 0, 0, 0, 0]]"
  let ?g' = "[Obj [(Name ''a'', JRef 2)], ArrayBuffer [0x58, 0x56, 0x49, 0x5A, 0, 0, 0, 0],
              Obj []]"
  have gl: "lookup ?g 0 = Some (Obj [(Name ''a'', JRef 1)])" by (simp add: lookup_def)
  have gs: "struct (Obj [(Name ''a'', JRef 1)])" by simp
  have gd: "distinct (own_keys (Obj [(Name ''a'', JRef 1)]))" by simp
  have gp: "Name ''a'' \<in> set (own_keys (Obj [(Name ''a'', JRef 1)]))
      \<and> obj_get (Obj [(Name ''a'', JRef 1)]) (Name ''a'') = JRef 1
      \<and> lookup ?g 1 = Some (ArrayBuffer [0x58, 0x56, 0x49, 0x5A, 0, 0, 0, 0])
      \<and> isBinary env0 ?g (JRef 1)"
    by (simp add: lookup_def isBinary_def isBinaryXVIZ_env0)
  from decode_in_place [OF gl gs decode_binary_example] gd gp
  have 4: "\<exists>n new x.
      parseBinaryXVIZ env0 n (ArrayBuffer [0x58, 0x56, 0x49, 0x5A, 0, 0, 0, 0]) = Inr (x, new)
      \<and> getProp ?g' (JRef 0) (Name ''a'') = Inr x"
    by blast
  from decode_example 1 2 3 4 show ?thesis by blast
qed

text \<open>
  The payload \<^verbatim>\<open>{id: 7, points: <bytes of "{}">}\<close>: after \<open>decode\<close> its \<^verbatim>\<open>points\<close>
  field holds the parsed object instead of the bytes, and the value returned is the
  payload's own reference.
\<close>

theorem decode_mutates_counterexample:
  "getProp [Obj [(Name ''id'', JNum 7), (Name ''points'', JRef 1)], Uint8Array [0x7B, 0x7D]]
       (JRef 0) (Name ''points'') = Inr (JRef 1)
   \<and> decode env0
       [Obj [(Name ''id'', JNum 7), (Name ''points'', JRef 1)], Uint8Array [0x7B, 0x7D]]
       (JRef 0) True
     = Inr (JRef 0,
            [Obj [(Name ''id'', JNum 7), (Name ''points'', JRef 2)], Uint8Array [0x7B, 0x7D],
             Obj []])
   \<and> getProp [Obj [(Name ''id'', JNum 7), (Name ''points'', JRef 2)], Uint8Array [0x7B, 0x7D],
               Obj []] (JRef 0) (Name ''points'') = Inr (JRef 2)"
  by (simp add: decode.simps isBinary_def instanceof_Uint8Array_def bytes_of_def forin_keys_def
      lookup_def setProp_def isJSON_braces textDecode_braces jsonParse_braces isBinaryXVIZ_env0)

section \<open>One level of decoding\<close>

text \<open>
  Claim C6. Let \<open>decode\<close> return on a payload that is a structural object with distinct
  keys. A field of the payload that holds a \<^verbatim>\<open>Uint8Array\<close> with JSON (and no binary
  signature) then holds the value \<^verbatim>\<open>JSON.parse\<close> gave for its text, with the objects of
  that value in the store. A \<^verbatim>\<open>Uint8Array\<close> held by a field of a structural object that
  is itself held by a field of the payload is still there, bytes unchanged, and both
  fields on the way to it are unchanged. No object other than the payload is changed,
  at any depth.
\<close>

theorem decode_one_level:
  assumes "lookup h a = Some ob" and "struct ob" and "distinct (own_keys ob)"
    and "decode env h (JRef a) True = Inr (r, h')"
  shows "(\<forall>k b bs. k \<in> set (own_keys ob) \<and> obj_get ob k = JRef b
              \<and> lookup h b = Some (Uint8Array bs) \<and> isJSON bs
              \<and> \<not> isBinaryXVIZ env (Uint8Array bs) \<longrightarrow>
            (\<exists>n new x. jsonParse env n (textDecode env bs) = Inr (x, new)
               \<and> getProp h' (JRef a) k = Inr x
               \<and> (\<forall>i<length new. lookup h' (n + i) = Some (new ! i))))
       \<and> (\<forall>k c oc j d bs. obj_get ob k = JRef c \<and> c \<noteq> a
              \<and> lookup h c = Some oc \<and> struct oc
              \<and> obj_get oc j = JRef d \<and> lookup h d = Some (Uint8Array bs) \<longrightarrow>
            getProp h' (JRef a) k = Inr (JRef c)
              \<and> getProp h' (JRef c) j = Inr (JRef d)
              \<and> lookup h' d = Some (Uint8Array bs))
       \<and> (\<forall>b. b \<noteq> a \<and> b < length h \<longrightarrow> lookup h' b = lookup h b)"
proof -
  from assms(4) decode_struct [OF assms(1,2), of env]
  have ks: "decode_keys env h a (own_keys ob) = Inr h'"
    by (auto split: sum.splits)
  have top: "\<exists>n new x. jsonParse env n (textDecode env bs) = Inr (x, new)
      \<and> getProp h' (JRef a) k = Inr x
      \<and> (\<forall>i<length new. lookup h' (n + i) = Some (new ! i))"
    if "k \<in> set (own_keys ob) \<and> obj_get ob k = JRef b
        \<and> lookup h b = Some (Uint8Array bs) \<and> isJSON bs
        \<and> \<not> isBinaryXVIZ env (Uint8Array bs)" for k b bs
    using decode_keys_decoded [OF ks assms(1,2,3)] that by blast
  have nested: "getProp h' (JRef a) k = Inr (JRef c)
      \<and> getProp h' (JRef c) j = Inr (JRef d)
      \<and> lookup h' d = Some (Uint8Array bs)"
    if n: "obj_get ob k = JRef c \<and> c \<noteq> a \<and> lookup h c = Some oc \<and> struct oc
        \<and> obj_get oc j = JRef d \<and> lookup h d = Some (Uint8Array bs)" for k c oc j d bs
  proof -
    from n have c: "c < length h" and d: "d < length h"
      by (auto simp: lookup_def split: if_splits)
    from n assms(1,2) have da: "d \<noteq> a" by auto
    from n c have v: "valid h (obj_get ob k)" by (simp add: valid_def)
    from n have e: "\<not> encoded env h (obj_get ob k)" by (simp add: encoded_struct)
    from decode_keys_kept [OF ks assms(1,2) v e] n
    have 1: "getProp h' (JRef a) k = Inr (JRef c)" by simp
    from decode_keys_others [OF ks assms(1)]
    have oth: "\<forall>b. b \<noteq> a \<and> b < length h \<longrightarrow> lookup h' b = lookup h b" by blast
    with n c have "lookup h' c = Some oc" by simp
    with n have 2: "getProp h' (JRef c) j = Inr (JRef d)" by simp
    from oth n d da have 3: "lookup h' d = Some (Uint8Array bs)" by simp
    from 1 2 3 show ?thesis by blast
  qed
  from decode_keys_others [OF ks assms(1)]
  have "\<forall>b. b \<noteq> a \<and> b < length h \<longrightarrow> lookup h' b = lookup h b" by blast
  with top nested show ?thesis by blast
qed

theorem decode_one_level_witness:
  "decode env0
       [Obj [(Name ''top'', JRef 1), (Name ''frame'', JRef 2)], Uint8Array [0x7B, 0x7D],
        Obj [(Name ''points'', JRef 3)], Uint8Array [0x7B, 0x7D]] (JRef 0) True
     = Inr (JRef 0,
            [Obj [(Name ''top'', JRef 4), (Name ''frame'', JRef 2)], Uint8Array [0x7B, 0x7D],
             Obj [(Name ''points'', JRef 3)], Uint8Array [0x7B, 0x7D], Obj []])
   \<and> (\<exists>n new x. jsonParse env0 n (textDecode env0 [0x7B, 0x7D]) = Inr (x, new)
        \<and> getProp [Obj [(Name ''top'', JRef 4), (Name ''frame'', JRef 2)],
                    Uint8Array [0x7B, 0x7D], Obj [(Name ''points'', JRef 3)],
                    Uint8Array [0x7B, 0x7D], Obj []] (JRef 0) (Name ''top'') = Inr x)
   \<and> getProp [Obj [(Name ''top'', JRef 4), (Name ''frame'', JRef 2)],
               Uint8Array [0x7B, 0x7D], Obj [(Name ''points'', JRef 3)],
               Uint8Array [0x7B, 0x7D], Obj []] (JRef 2) (Name ''points'') = Inr (JRef 3)
   \<and> lookup [Obj [(Name ''top'', JRef 4), (Name ''frame'', JRef 2)],
              Uint8Array [0x7B, 0x7D], Obj [(Name ''points'', JRef 3)],
              Uint8Array [0x7B, 0x7D], Obj []] 3 = Some (Uint8Array [0x7B, 0x7D])"
proof -
  let ?ob = "Obj [(Name ''top'', JRef 1), (Name ''frame'', JRef 2)]"
  let ?oc = "Obj [(Name ''points'', JRef 3)]"
  let ?h = "[?ob, Uint8Array [0x7B, 0x7D], ?oc, Uint8Array [0x7B, 0x7D]]"
  let ?h' = "[Obj [(Name ''top'', JRef 4), (Name ''frame'', JRef 2)], Uint8Array [0x7B, 0x7D],
              ?oc, Uint8Array [0x7B, 0x7D], Obj []]"
  have l: "lookup ?h 0 = Some ?ob" by (simp add: lookup_def)
  have s: "struct ?ob" by simp
  have d: "distinct (own_keys ?ob)" by simp
  have t: "Name ''top'' \<in> set (own_keys ?ob) \<and> obj_get ?ob (Name ''top'') = JRef 1
      \<and> lookup ?h 1 = Some (Uint8Array [0x7B, 0x7D]) \<and> isJSON [0x7B, 0x7D]
      \<and> \<not> isBinaryXVIZ env0 (Uint8Array [0x7B, 0x7D])"
    by (simp add: lookup_def isJSON_braces isBinaryXVIZ_env0)
  have n: "obj_get ?ob (Name ''frame'') = JRef 2 \<and> (2::nat) \<noteq> 0
      \<and> lookup ?h 2 = Some ?oc \<and> struct ?oc
      \<and> obj_get ?oc (Name ''points'') = JRef 3
      \<and> lookup ?h 3 = Some (Uint8Array [0x7B, 0x7D])"
    by (simp add: lookup_def)
  note inst = decode_one_level [OF l s d decode_two_levels_example]
  from inst t have "\<exists>n new x. jsonParse env0 n (textDecode env0 [0x7B, 0x7D]) = Inr (x, new)
      \<and> getProp ?h' (JRef 0) (Name ''top'') = Inr x"
    by blast
  moreover from inst n have "getProp ?h' (JRef 2) (Name ''points'') = Inr (JRef 3)
      \<and> lookup ?h' 3 = Some (Uint8Array [0x7B, 0x7D])"
    by blast
  ultimately show ?thesis using decode_two_levels_example by blast
qed

section \<open>Decoding a decoded value\<close>

text \<open>
  Claim C9, as the code has it. A truthy value that is neither a binary-protocol payload
  nor a \<^verbatim>\<open>Uint8Array\<close>, and none of whose fields is a \<^verbatim>\<open>Uint8Array\<close> or a
  binary-protocol payload, is returned by \<open>decode\<close> as it is, and the store is unchanged.
\<close>

theorem decode_idempotent:
  assumes "truthy v" and "\<not> isBinary env h v" and "\<not> instanceof_Uint8Array h v"
    and "\<forall>x \<in> set (field_values h v). \<not> instanceof_Uint8Array h x \<and> \<not> isBinary env h x"
  shows "decode env h v True = Inr (v, h)"
proof (cases v)
  case (JRef a)
  show ?thesis
  proof (cases "lookup h a")
    case None
    with JRef assms(2,3) show ?thesis
      by (simp add: decode.simps [of env h "JRef a" True] forin_keys_def)
  next
    case (Some ob)
    have "decode_keys env h a (own_keys ob) = Inr h"
    proof (rule decode_keys_noop [OF Some], intro ballI conjI)
      fix k assume k: "k \<in> set (own_keys ob)"
      from obj_get_field_value [OF k] JRef Some
      have "obj_get ob k \<in> set (field_values h v)" by (simp add: field_values_def)
      with assms(4) show "\<not> encoded env h (obj_get ob k)" by (auto simp: encoded_def)
      from k show "obj_set ob k (obj_get ob k) = ob" by (rule obj_set_get_id)
    qed
    with JRef Some assms(2,3) show ?thesis
      by (simp add: decode.simps [of env h "JRef a" True] forin_keys_def)
  qed
qed (use assms in \<open>simp_all add: decode.simps\<close>)

theorem decode_idempotent_witness:
  "decode env0
       [Obj [(Name ''type'', JStr ''snapshot''), (Name ''updates'', JRef 1)], Arr [JNum 1, JRef 2],
        Uint8Array [0x7B, 0x7D]] (JRef 0) True
     = Inr (JRef 0,
            [Obj [(Name ''type'', JStr ''snapshot''), (Name ''updates'', JRef 1)],
             Arr [JNum 1, JRef 2], Uint8Array [0x7B, 0x7D]])"
proof -
  let ?h = "[Obj [(Name ''type'', JStr ''snapshot''), (Name ''updates'', JRef 1)],
             Arr [JNum 1, JRef 2], Uint8Array [0x7B, 0x7D]]"
  have a: "truthy (JRef 0)" by simp
  have b: "\<not> isBinary env0 ?h (JRef 0)" by (simp add: isBinary_def lookup_def)
  have c: "\<not> instanceof_Uint8Array ?h (JRef 0)" by (simp add: instanceof_Uint8Array_def lookup_def)
  have d: "\<forall>x \<in> set (field_values ?h (JRef 0)).
      \<not> instanceof_Uint8Array ?h x \<and> \<not> isBinary env0 ?h x"
    by (simp add: field_values_def instanceof_Uint8Array_def isBinary_def lookup_def)
  from decode_idempotent [OF a b c d] show ?thesis .
qed

text \<open>
  A payload with a field holding an \<^verbatim>\<open>ArrayBuffer\<close> that carries the binary signature
  is truthy, is no binary payload and no \<^verbatim>\<open>Uint8Array\<close>, and has no \<^verbatim>\<open>Uint8Array\<close>
  field. \<open>decode\<close> hands the field to the binary codec: it raises when the codec does,
  and overwrites the field with the codec's result otherwise.
\<close>

theorem binary_field_counterexample:
  "truthy (JRef 0)
   \<and> \<not> isBinary env0 [Obj [(Name ''a'', JRef 1)], ArrayBuffer [0x58, 0x56, 0x49, 0x5A]] (JRef 0)
   \<and> \<not> instanceof_Uint8Array [Obj [(Name ''a'', JRef 1)], ArrayBuffer [0x58, 0x56, 0x49, 0x5A]] (JRef 0)
   \<and> field_values [Obj [(Name ''a'', JRef 1)], ArrayBuffer [0x58, 0x56, 0x49, 0x5A]] (JRef 0)
        = [JRef 1]
   \<and> \<not> instanceof_Uint8Array [Obj [(Name ''a'', JRef 1)], ArrayBuffer [0x58, 0x56, 0x49, 0x5A]] (JRef 1)
   \<and> decode env0 [Obj [(Name ''a'', JRef 1)], ArrayBuffer [0x58, 0x56, 0x49, 0x5A]] (JRef 0) True
        = Inl (Thrown ''truncated'')
   \<and> decode env0 [Obj [(Name ''a'', JRef 1)], ArrayBuffer [0x58, 0x56, 0x49, 0x5A, 0, 0, 0, 0]]
        (JRef 0) True
        = Inr (JRef 0,
               [Obj [(Name ''a'', JRef 2)], ArrayBuffer [0x58, 0x56, 0x49, 0x5A, 0, 0, 0, 0],
                Obj []])"
  by (simp add: decode.simps isBinary_def parseBinary_def instanceof_Uint8Array_def bytes_of_def
      field_values_def forin_keys_def lookup_def setProp_def env0_def)

end
